theory Spec2Isabelle
  imports Main
begin

section \<open>CRNN keyword-spotting model: kws\_streaming/models/crnn.py\<close>

text \<open>
  The module has two functions. \<open>model_parameters\<close> registers eleven options on an
  argument parser; \<open>model\<close> reads a flags record, parses the string-valued options
  and chains layers into a Keras model. The layer classes (\<open>SpeechFeatures\<close>,
  \<open>Stream\<close>, \<open>GRU\<close>, the Keras layers) and the helper \<open>parse\<close> of
  \<open>kws_streaming/models/utils.py\<close> are collaborators that the module only calls:
  they are taken as parameters (record \<open>deps\<close>), and every theorem holds for all of
  them.
\<close>

subsection \<open>Python values\<close>

text \<open>
  Values are dynamically typed. A float is kept as the decimal it was written as
  (mantissa and power of ten): the module stores and forwards floats and never
  computes with them.
\<close>

datatype pyval =
    PInt int
  | PFloat int int
  | PStr string
  | PBool bool
  | PNone
  | PTuple "pyval list"

datatype exn =
    ParseError string
  | LayerError string
  | IndexError

subsection \<open>Argument registration (lines 25--95)\<close>





definition default_cnn_act :: string where
  "default_cnn_act = CHR 0x27 # ''relu','selu','selu','selu','selu','selu','selu'' @ [CHR 0x27]"


subsection \<open>Flags, layers, tensors\<close>

text \<open>
  The fields of \<open>flags\<close> that \<open>model\<close> reads. The string options are strings,
  \<open>stateful\<close> is an integer and \<open>dropout1\<close> a float, as their registration says;
  the sizes are integers; the feature-extraction settings are forwarded as they are.
\<close>

record flags =
  desired_samples :: int
  batch_size :: int
  label_count :: int
  window_size_ms :: pyval
  window_stride_ms :: pyval
  sample_rate :: pyval
  use_tf_fft :: pyval
  preemph :: pyval
  window_type :: pyval
  feature_type :: pyval
  mel_num_bins :: pyval
  mel_lower_edge_hertz :: pyval
  mel_upper_edge_hertz :: pyval
  mel_non_zero_only :: pyval
  fft_magnitude_squared :: pyval
  dct_num_features :: pyval
  cnn_filters :: string
  cnn_kernel_size :: string
  cnn_act :: string
  cnn_dilation_rate :: string
  cnn_strides :: string
  gru_units :: string
  return_sequences :: string
  stateful :: int
  dropout1 :: pyval
  units1 :: string
  act1 :: string

record speech_params =
  frame_size_ms :: pyval
  frame_step_ms :: pyval
  sf_sample_rate :: pyval
  sf_use_tf_fft :: pyval
  sf_preemph :: pyval
  sf_window_type :: pyval
  sf_feature_type :: pyval
  sf_mel_num_bins :: pyval
  sf_mel_lower_edge_hertz :: pyval
  sf_mel_upper_edge_hertz :: pyval
  sf_mel_non_zero_only :: pyval
  sf_fft_magnitude_squared :: pyval
  sf_dct_num_features :: pyval

text \<open>
  A layer is its constructor call; \<open>ExpandDims\<close> stands for the backend call
  \<open>expand_dims(net)\<close>, which takes a tensor to a tensor as a layer does.
  \<open>Dense\<close> carries \<open>None\<close> when the call passes no \<open>activation\<close> argument.
\<close>

datatype cell =
    Conv2D pyval pyval pyval pyval pyval
  | Flatten

datatype layer =
    Input "int list" int
  | SpeechFeatures speech_params
  | ExpandDims
  | Stream cell
  | Reshape "int list"
  | GRU pyval pyval int
  | Dropout pyval
  | Dense pyval "pyval option"

text \<open>
  A symbolic tensor knows the chain of layers that produced it, input first, and its
  static shape; every axis is known, since the input declares its length and its batch
  size. A model is the pair of its input and output tensors; its layers are the chain
  that leads to the output.
\<close>

record tensor =
  producers :: "layer list"
  shape :: "int list"

record kmodel =
  inputs :: tensor
  outputs :: tensor

definition Model :: "tensor \<Rightarrow> tensor \<Rightarrow> kmodel" where
  "Model i out = \<lparr>inputs = i, outputs = out\<rparr>"

definition layers :: "kmodel \<Rightarrow> layer list" where
  "layers m = producers (outputs m)"

subsection \<open>Collaborators\<close>

text \<open>
  \<open>parse\<close> turns an option string into the sequence of its entries or raises;
  \<open>out_shape\<close> is what constructing a layer and calling it on a tensor of a given
  shape does: it raises, or gives the shape of the result.
\<close>

record deps =
  parse :: "string \<Rightarrow> exn + pyval list"
  out_shape :: "layer \<Rightarrow> int list \<Rightarrow> exn + int list"

definition call :: "deps \<Rightarrow> layer \<Rightarrow> tensor \<Rightarrow> exn + tensor" where
  "call d l x =
    (case out_shape d l (shape x) of
       Inl e \<Rightarrow> Inl e
     | Inr s \<Rightarrow> Inr \<lparr>producers = producers x @ [l], shape = s\<rparr>)"

definition bind :: "exn + 'a \<Rightarrow> ('a \<Rightarrow> exn + 'b) \<Rightarrow> exn + 'b" where
  "bind r k = (case r of Inl e \<Rightarrow> Inl e | Inr v \<Rightarrow> k v)"

text \<open>Python's \<open>zip\<close>: it stops as soon as one of its arguments is exhausted.\<close>

fun zip2 :: "'a list \<Rightarrow> 'b list \<Rightarrow> ('a \<times> 'b) list" where
  "zip2 (a # as) (b # bs) = (a, b) # zip2 as bs"
| "zip2 _ _ = []"

fun zip5 :: "'a list \<Rightarrow> 'b list \<Rightarrow> 'c list \<Rightarrow> 'd list \<Rightarrow> 'e list
    \<Rightarrow> ('a \<times> 'b \<times> 'c \<times> 'd \<times> 'e) list" where
  "zip5 (a # as) (b # bs) (c # cs) (d # ds) (e # es) = (a, b, c, d, e) # zip5 as bs cs ds es"
| "zip5 _ _ _ _ _ = []"

subsection \<open>Model assembly (lines 98--167)\<close>

text \<open>The local variables of \<open>model\<close>: its argument and the two tensors it names.\<close>

record locals =
  flags_of :: flags
  input_audio :: tensor
  net :: tensor

definition speech_features_of :: "flags \<Rightarrow> speech_params" where
  "speech_features_of f =
    \<lparr>frame_size_ms = window_size_ms f,
     frame_step_ms = window_stride_ms f,
     sf_sample_rate = sample_rate f,
     sf_use_tf_fft = use_tf_fft f,
     sf_preemph = preemph f,
     sf_window_type = window_type f,
     sf_feature_type = feature_type f,
     sf_mel_num_bins = mel_num_bins f,
     sf_mel_lower_edge_hertz = mel_lower_edge_hertz f,
     sf_mel_upper_edge_hertz = mel_upper_edge_hertz f,
     sf_mel_non_zero_only = mel_non_zero_only f,
     sf_fft_magnitude_squared = fft_magnitude_squared f,
     sf_dct_num_features = dct_num_features f\<rparr>"

text \<open>Lines 113--114: the input tensor has the shape the call declares.\<close>

definition input_tensor :: "flags \<Rightarrow> tensor" where
  "input_tensor f =
    \<lparr>producers = [Input [desired_samples f] (batch_size f)],
     shape = [batch_size f, desired_samples f]\<rparr>"

text \<open>Lines 116--133: feature extraction, then the channel axis.\<close>

definition front_end :: "deps \<Rightarrow> flags \<Rightarrow> exn + locals" where
  "front_end d f =
    (let ia = input_tensor f in
     bind (call d (SpeechFeatures (speech_features_of f)) ia) (\<lambda>n1.
     bind (call d ExpandDims n1) (\<lambda>n2.
     Inr \<lparr>flags_of = f, input_audio = ia, net = n2\<rparr>)))"

text \<open>Lines 134--145: the body of the convolution loop, then the loop.\<close>

fun conv_loop :: "deps \<Rightarrow> (pyval \<times> pyval \<times> pyval \<times> pyval \<times> pyval) list \<Rightarrow> locals
    \<Rightarrow> exn + locals" where
  "conv_loop d [] st = Inr st"
| "conv_loop d ((filters, kernel_size, activation, dilation_rate, strides) # rest) st =
    bind (call d (Stream (Conv2D filters kernel_size activation dilation_rate strides)) (net st))
      (\<lambda>n. conv_loop d rest (st\<lparr>net := n\<rparr>))"

text \<open>
  The arguments of \<open>zip\<close> are evaluated left to right before the loop starts, so a
  string that does not parse raises before any convolution is built.
\<close>

definition conv_stack :: "deps \<Rightarrow> locals \<Rightarrow> exn + locals" where
  "conv_stack d st =
    bind (parse d (cnn_filters (flags_of st))) (\<lambda>fs.
    bind (parse d (cnn_kernel_size (flags_of st))) (\<lambda>ks.
    bind (parse d (cnn_act (flags_of st))) (\<lambda>acts.
    bind (parse d (cnn_dilation_rate (flags_of st))) (\<lambda>dils.
    bind (parse d (cnn_strides (flags_of st))) (\<lambda>strs.
    conv_loop d (zip5 fs ks acts dils strs) st)))))"

text \<open>
  Lines 147--151: \<open>shape[2] * shape[3]\<close> raises when the tensor has fewer than four
  axes.
\<close>

definition collapse :: "deps \<Rightarrow> locals \<Rightarrow> exn + locals" where
  "collapse d st =
    (let sh = shape (net st) in
     if length sh < 4 then Inl IndexError
     else bind (call d (Reshape [- 1, sh ! 2 * sh ! 3]) (net st))
            (\<lambda>n. Inr (st\<lparr>net := n\<rparr>)))"

text \<open>Lines 153--158: the recurrent loop; \<open>stateful\<close> is read from the flags each time.\<close>

fun gru_loop :: "deps \<Rightarrow> (pyval \<times> pyval) list \<Rightarrow> locals \<Rightarrow> exn + locals" where
  "gru_loop d [] st = Inr st"
| "gru_loop d ((units, return_seqs) # rest) st =
    bind (call d (GRU units return_seqs (stateful (flags_of st))) (net st))
      (\<lambda>n. gru_loop d rest (st\<lparr>net := n\<rparr>))"

definition gru_stack :: "deps \<Rightarrow> locals \<Rightarrow> exn + locals" where
  "gru_stack d st =
    bind (parse d (gru_units (flags_of st))) (\<lambda>us.
    bind (parse d (return_sequences (flags_of st))) (\<lambda>rs.
    gru_loop d (zip2 us rs) st))"

text \<open>Lines 160--161.\<close>

definition flatten_dropout :: "deps \<Rightarrow> locals \<Rightarrow> exn + locals" where
  "flatten_dropout d st =
    bind (call d (Stream Flatten) (net st)) (\<lambda>n1.
    bind (call d (Dropout (dropout1 (flags_of st))) n1) (\<lambda>n2.
    Inr (st\<lparr>net := n2\<rparr>)))"

text \<open>Lines 163--164: the hidden dense loop.\<close>

fun dense_loop :: "deps \<Rightarrow> (pyval \<times> pyval) list \<Rightarrow> locals \<Rightarrow> exn + locals" where
  "dense_loop d [] st = Inr st"
| "dense_loop d ((units, activation) # rest) st =
    bind (call d (Dense units (Some activation)) (net st))
      (\<lambda>n. dense_loop d rest (st\<lparr>net := n\<rparr>))"

definition dense_stack :: "deps \<Rightarrow> locals \<Rightarrow> exn + locals" where
  "dense_stack d st =
    bind (parse d (units1 (flags_of st))) (\<lambda>us.
    bind (parse d (act1 (flags_of st))) (\<lambda>acts.
    dense_loop d (zip2 us acts) st))"

text \<open>Line 166.\<close>

definition classifier :: "deps \<Rightarrow> locals \<Rightarrow> exn + locals" where
  "classifier d st =
    bind (call d (Dense (PInt (label_count (flags_of st))) None) (net st))
      (\<lambda>n. Inr (st\<lparr>net := n\<rparr>))"

text \<open>
  The statements of \<open>model\<close> in order: \<open>model_locals\<close> is the frame at the
  \<open>return\<close>, \<open>model\<close> what is returned.
\<close>

definition model_locals :: "deps \<Rightarrow> flags \<Rightarrow> exn + locals" where
  "model_locals d f =
    bind (front_end d f) (\<lambda>s1.
    bind (conv_stack d s1) (\<lambda>s2.
    bind (collapse d s2) (\<lambda>s3.
    bind (gru_stack d s3) (\<lambda>s4.
    bind (flatten_dropout d s4) (\<lambda>s5.
    bind (dense_stack d s5) (\<lambda>s6.
    classifier d s6))))))"

definition model :: "deps \<Rightarrow> flags \<Rightarrow> exn + kmodel" where
  "model d f = bind (model_locals d f) (\<lambda>st. Inr (Model (input_audio st) (net st)))"

subsection \<open>A reference implementation of the collaborators\<close>

text \<open>
  Modelled from the spec: \<open>parse\<close> (kws\_streaming/models/utils.py) and the layer
  classes are not part of the verified source. The spec calls the options
  "delimited strings" parsed into "per-layer configuration tuples"; \<open>parse_ref\<close>
  reads a comma-delimited sequence of integers, quoted strings and parenthesised
  integer tuples, and \<open>keras_shape\<close> follows the documented shape rules of the layers
  in non-streaming mode. They serve only to run \<open>model\<close> on concrete flags; the
  theorems about \<open>model\<close> are stated for arbitrary collaborators.
\<close>

fun split_top :: "nat \<Rightarrow> string \<Rightarrow> string \<Rightarrow> string list" where
  "split_top depth cur [] = [rev cur]"
| "split_top depth cur (c # cs) =
    (if c = CHR '','' \<and> depth = 0 then rev cur # split_top 0 [] cs
     else if c = CHR ''('' then split_top (Suc depth) (c # cur) cs
     else if c = CHR '')'' then split_top (depth - 1) (c # cur) cs
     else split_top depth (c # cur) cs)"

definition is_digit :: "char \<Rightarrow> bool" where
  "is_digit c = (c \<in> set ''0123456789'')"

fun digits_value :: "int \<Rightarrow> string \<Rightarrow> int" where
  "digits_value acc [] = acc"
| "digits_value acc (c # cs) = digits_value (10 * acc + (of_char c - 48)) cs"

definition parse_int :: "string \<Rightarrow> exn + pyval" where
  "parse_int s =
    (if s \<noteq> [] \<and> list_all is_digit s then Inr (PInt (digits_value 0 s))
     else Inl (ParseError s))"

fun collect :: "(exn + 'a) list \<Rightarrow> exn + 'a list" where
  "collect [] = Inr []"
| "collect (r # rs) = bind r (\<lambda>v. bind (collect rs) (\<lambda>vs. Inr (v # vs)))"

definition parse_item :: "string \<Rightarrow> exn + pyval" where
  "parse_item s =
    (if 2 \<le> length s \<and> hd s = CHR ''('' \<and> last s = CHR '')'' then
       bind (collect (map parse_int (split_top 0 [] (butlast (tl s))))) (\<lambda>vs. Inr (PTuple vs))
     else if 2 \<le> length s \<and> hd s = CHR 0x27 \<and> last s = CHR 0x27 then
       Inr (PStr (butlast (tl s)))
     else parse_int s)"

definition parse_ref :: "string \<Rightarrow> exn + pyval list" where
  "parse_ref s = (if s = [] then Inr [] else collect (map parse_item (split_top 0 [] s)))"

definition truthy :: "pyval \<Rightarrow> bool" where
  "truthy v =
    (case v of
       PInt n \<Rightarrow> n \<noteq> 0
     | PFloat m e \<Rightarrow> m \<noteq> 0
     | PStr s \<Rightarrow> s \<noteq> []
     | PBool b \<Rightarrow> b
     | PNone \<Rightarrow> False
     | PTuple vs \<Rightarrow> vs \<noteq> [])"

text \<open>
  Keras \<open>Reshape\<close>: the batch axis is kept; one target entry may be negative and
  is inferred from the number of elements, which the product of the other entries must
  divide and which must not be zero.
\<close>

definition keras_reshape :: "int list \<Rightarrow> int list \<Rightarrow> exn + int list" where
  "keras_reshape target s =
    (case s of
       [] \<Rightarrow> Inl (LayerError ''Reshape'')
     | b # rest \<Rightarrow>
        (let total = prod_list rest;
             known = prod_list (filter (\<lambda>t. 0 \<le> t) target);
             unknowns = length (filter (\<lambda>t. t < 0) target)
         in if unknowns = 0 then
              (if known = total then Inr (b # target) else Inl (LayerError ''Reshape''))
            else if unknowns = 1 \<and> known \<noteq> 0 \<and> total mod known = 0 then
              Inr (b # map (\<lambda>t. if t < 0 then total div known else t) target)
            else Inl (LayerError ''Reshape'')))"

definition conv_dim :: "int \<Rightarrow> int \<Rightarrow> int \<Rightarrow> int \<Rightarrow> int" where
  "conv_dim n k dil str = (n - dil * (k - 1) - 1) div str + 1"

definition as_int :: "pyval \<Rightarrow> exn + int" where
  "as_int v = (case v of PInt n \<Rightarrow> Inr n | _ \<Rightarrow> Inl (LayerError ''int''))"

definition as_pair :: "pyval \<Rightarrow> exn + int \<times> int" where
  "as_pair v =
    (case v of
       PTuple [PInt h, PInt w] \<Rightarrow> Inr (h, w)
     | _ \<Rightarrow> Inl (LayerError ''pair''))"

definition speech_shape :: "speech_params \<Rightarrow> int list \<Rightarrow> exn + int list" where
  "speech_shape p s =
    bind (as_int (frame_size_ms p)) (\<lambda>size_ms.
    bind (as_int (frame_step_ms p)) (\<lambda>step_ms.
    bind (as_int (sf_sample_rate p)) (\<lambda>rate.
    bind (as_int (sf_dct_num_features p)) (\<lambda>feats.
      (case s of
         [b, n] \<Rightarrow>
           (let frame_size = rate * size_ms div 1000; frame_step = rate * step_ms div 1000
            in if 0 < frame_size \<and> 0 < frame_step \<and> frame_size \<le> n \<and> 0 < feats
               then Inr [b, (n - frame_size) div frame_step + 1, feats]
               else Inl (LayerError ''SpeechFeatures''))
       | _ \<Rightarrow> Inl (LayerError ''SpeechFeatures''))))))"

definition conv_shape :: "pyval \<Rightarrow> pyval \<Rightarrow> pyval \<Rightarrow> pyval \<Rightarrow> int list \<Rightarrow> exn + int list" where
  "conv_shape filters kernel_size dilation_rate strides s =
    bind (as_int filters) (\<lambda>n.
    bind (as_pair kernel_size) (\<lambda>(kh, kw).
    bind (as_pair dilation_rate) (\<lambda>(dh, dw).
    bind (as_pair strides) (\<lambda>(sh, sw).
      (case s of
         [b, t, fe, c] \<Rightarrow>
           (let t_out = conv_dim t kh dh sh; fe_out = conv_dim fe kw dw sw
            in if 0 < n \<and> 0 < kh \<and> 0 < kw \<and> 0 < dh \<and> 0 < dw \<and> 0 < sh \<and> 0 < sw
                  \<and> 0 < t_out \<and> 0 < fe_out
               then Inr [b, t_out, fe_out, n]
               else Inl (LayerError ''Conv2D''))
       | _ \<Rightarrow> Inl (LayerError ''Conv2D''))))))"

definition gru_shape :: "pyval \<Rightarrow> pyval \<Rightarrow> int list \<Rightarrow> exn + int list" where
  "gru_shape units rs s =
    bind (as_int units) (\<lambda>n.
      (case s of
         [b, t, fe] \<Rightarrow>
           (if 0 < n then (if truthy rs then Inr [b, t, n] else Inr [b, n])
            else Inl (LayerError ''GRU''))
       | _ \<Rightarrow> Inl (LayerError ''GRU'')))"

definition dense_shape :: "pyval \<Rightarrow> int list \<Rightarrow> exn + int list" where
  "dense_shape units s =
    bind (as_int units) (\<lambda>n.
      if 0 < n \<and> 2 \<le> length s then Inr (butlast s @ [n])
      else Inl (LayerError ''Dense''))"

definition batch_first :: "int list \<Rightarrow> (int \<Rightarrow> int list \<Rightarrow> int list) \<Rightarrow> exn + int list" where
  "batch_first s k = (case s of [] \<Rightarrow> Inl (LayerError ''rank'') | b # rest \<Rightarrow> Inr (k b rest))"

fun keras_shape :: "layer \<Rightarrow> int list \<Rightarrow> exn + int list" where
  "keras_shape (Input s b) _ = Inl (LayerError ''Input'')"
| "keras_shape (SpeechFeatures p) s = speech_shape p s"
| "keras_shape ExpandDims s = batch_first s (\<lambda>b rest. b # rest @ [1])"
| "keras_shape (Stream (Conv2D filters kernel_size act dilation_rate strides)) s =
    conv_shape filters kernel_size dilation_rate strides s"
| "keras_shape (Stream Flatten) s = batch_first s (\<lambda>b rest. [b, prod_list rest])"
| "keras_shape (Reshape target) s = keras_reshape target s"
| "keras_shape (GRU units rs st) s = gru_shape units rs s"
| "keras_shape (Dropout rate) s = Inr s"
| "keras_shape (Dense units act) s = dense_shape units s"

definition ref_deps :: deps where
  "ref_deps = \<lparr>parse = parse_ref, out_shape = keras_shape\<rparr>"

text \<open>
  Flags holding the registered defaults of the eleven options, with one second of
  16 kHz audio, 40 ms windows every 20 ms and 20 features per frame.
\<close>

definition default_flags :: flags where
  "default_flags =
    \<lparr>desired_samples = 16000, batch_size = 100, label_count = 12,
     window_size_ms = PInt 40, window_stride_ms = PInt 20, sample_rate = PInt 16000,
     use_tf_fft = PInt 0, preemph = PFloat 0 0, window_type = PStr ''hann'',
     feature_type = PStr ''mfcc_tf'', mel_num_bins = PInt 40,
     mel_lower_edge_hertz = PFloat 20 0, mel_upper_edge_hertz = PFloat 7000 0,
     mel_non_zero_only = PInt 1, fft_magnitude_squared = PInt 0,
     dct_num_features = PInt 20,
     cnn_filters = ''64,64,64,64,64,64,128'',
     cnn_kernel_size = ''(3,3),(5,3),(5,3),(5,3),(5,2),(5,1),(5,1)'',
     cnn_act = default_cnn_act,
     cnn_dilation_rate = ''(1,1),(1,1),(2,1),(1,1),(2,1),(1,1),(2,1)'',
     cnn_strides = ''(1,1),(1,1),(1,1),(1,1),(1,1),(1,1),(1,1)'',
     gru_units = ''512'', return_sequences = ''1'', stateful = 0,
     dropout1 = PFloat 1 (- 1), units1 = [], act1 = []\<rparr>"

subsection \<open>Notions used in the statements\<close>

text \<open>The layers the three loop bodies build from one tuple of the zipped sequences.\<close>

definition conv_layer :: "pyval \<times> pyval \<times> pyval \<times> pyval \<times> pyval \<Rightarrow> layer" where
  "conv_layer = (\<lambda>(filters, kernel_size, activation, dilation_rate, strides).
     Stream (Conv2D filters kernel_size activation dilation_rate strides))"

definition gru_layer :: "int \<Rightarrow> pyval \<times> pyval \<Rightarrow> layer" where
  "gru_layer sf = (\<lambda>(units, return_seqs). GRU units return_seqs sf)"

definition hidden_dense :: "pyval \<times> pyval \<Rightarrow> layer" where
  "hidden_dense = (\<lambda>(units, activation). Dense units (Some activation))"

text \<open>Shape inference replayed along a chain of layers.\<close>

fun infer :: "deps \<Rightarrow> layer list \<Rightarrow> int list \<Rightarrow> exn + int list" where
  "infer d [] s = Inr s"
| "infer d (l # ls) s = bind (out_shape d l s) (infer d ls)"

text \<open>Tensor \<open>t\<close> was obtained from tensor \<open>x\<close> by calling the layers \<open>ls\<close> in order.\<close>

definition extends :: "deps \<Rightarrow> tensor \<Rightarrow> tensor \<Rightarrow> layer list \<Rightarrow> bool" where
  "extends d x t ls = (producers t = producers x @ ls \<and> infer d ls (shape x) = Inr (shape t))"

fun is_conv :: "layer \<Rightarrow> bool" where
  "is_conv (Stream (Conv2D _ _ _ _ _)) = True"
| "is_conv _ = False"

fun is_gru :: "layer \<Rightarrow> bool" where
  "is_gru (GRU _ _ _) = True"
| "is_gru _ = False"

fun is_dense :: "layer \<Rightarrow> bool" where
  "is_dense (Dense _ _) = True"
| "is_dense _ = False"

fun is_hidden_dense :: "layer \<Rightarrow> bool" where
  "is_hidden_dense (Dense _ (Some _)) = True"
| "is_hidden_dense _ = False"

fun gru_stateful :: "layer \<Rightarrow> int option" where
  "gru_stateful (GRU _ _ sf) = Some sf"
| "gru_stateful _ = None"

text \<open>The nine option strings that \<open>model\<close> hands to \<open>parse\<close>, in the order of the calls.\<close>

definition option_strings :: "flags \<Rightarrow> string list" where
  "option_strings f =
    [cnn_filters f, cnn_kernel_size f, cnn_act f, cnn_dilation_rate f, cnn_strides f,
     gru_units f, return_sequences f, units1 f, act1 f]"

text \<open>The model that the reference collaborators build for the default flags.\<close>

definition default_model :: kmodel where
  "default_model =
    \<lparr>inputs = \<lparr>producers = [Input [16000] 100], shape = [100, 16000]\<rparr>,
     outputs =
       \<lparr>producers =
          [Input [16000] 100,
           SpeechFeatures (speech_features_of default_flags),
           ExpandDims,
           Stream (Conv2D (PInt 64) (PTuple [PInt 3, PInt 3]) (PStr ''relu'')
                     (PTuple [PInt 1, PInt 1]) (PTuple [PInt 1, PInt 1])),
           Stream (Conv2D (PInt 64) (PTuple [PInt 5, PInt 3]) (PStr ''selu'')
                     (PTuple [PInt 1, PInt 1]) (PTuple [PInt 1, PInt 1])),
           Stream (Conv2D (PInt 64) (PTuple [PInt 5, PInt 3]) (PStr ''selu'')
                     (PTuple [PInt 2, PInt 1]) (PTuple [PInt 1, PInt 1])),
           Stream (Conv2D (PInt 64) (PTuple [PInt 5, PInt 3]) (PStr ''selu'')
                     (PTuple [PInt 1, PInt 1]) (PTuple [PInt 1, PInt 1])),
           Stream (Conv2D (PInt 64) (PTuple [PInt 5, PInt 2]) (PStr ''selu'')
                     (PTuple [PInt 2, PInt 1]) (PTuple [PInt 1, PInt 1])),
           Stream (Conv2D (PInt 64) (PTuple [PInt 5, PInt 1]) (PStr ''selu'')
                     (PTuple [PInt 1, PInt 1]) (PTuple [PInt 1, PInt 1])),
           Stream (Conv2D (PInt 128) (PTuple [PInt 5, PInt 1]) (PStr ''selu'')
                     (PTuple [PInt 2, PInt 1]) (PTuple [PInt 1, PInt 1])),
           Reshape [- 1, 1408],
           GRU (PInt 512) (PInt 1) 0,
           Stream Flatten,
           Dropout (PFloat 1 (- 1)),
           Dense (PInt 12) None],
        shape = [100, 12]\<rparr>\<rparr>"

text \<open>
  Flags whose zipped options have different numbers of entries: two filter counts for
  seven kernel sizes, two recurrent sizes for one \<open>return_sequences\<close> entry, two
  hidden sizes for one activation.
\<close>

definition uneven_flags :: flags where
  "uneven_flags = default_flags
    \<lparr>cnn_filters := ''64,64'', gru_units := ''512,256'',
     units1 := ''128,256'', act1 := CHR 0x27 # ''relu'' @ [CHR 0x27]\<rparr>"

text \<open>Flags with an option string that does not parse.\<close>

definition malformed_flags :: flags where
  "malformed_flags = default_flags\<lparr>cnn_kernel_size := ''(3,3),,(5,3)''\<rparr>"

text \<open>Flags whose last convolution has 256 filters, so that the Reshape target is not
  the one of the defaults.\<close>

definition wide_flags :: flags where
  "wide_flags = default_flags\<lparr>cnn_filters := ''64,64,64,64,64,64,256''\<rparr>"

text \<open>Flags with two recurrent layers and \<open>stateful = 1\<close>.\<close>

definition two_gru_flags :: flags where
  "two_gru_flags = default_flags
    \<lparr>gru_units := ''512,256'', return_sequences := ''1,0'', stateful := 1\<rparr>"

text \<open>Flags for which a layer raises: a negative number of labels for the final Dense
  layer, and a second kernel taller than the tensor it is applied to.\<close>

definition no_labels_flags :: flags where
  "no_labels_flags = default_flags\<lparr>label_count := - 1\<rparr>"

definition tall_kernel_flags :: flags where
  "tall_kernel_flags = default_flags
    \<lparr>cnn_kernel_size := ''(3,3),(50,3),(5,3),(5,3),(5,2),(5,1),(5,1)''\<rparr>"

subsection \<open>What a function without a handler gives its caller\<close>

text \<open>
  The reading of "no exception is caught, classified or recovered" that \<open>model\<close> is
  compared with. The collaborators are called in the order of the source, each on the
  shape the previous one gave; the first exception any of them raises is the outcome,
  as it was raised; if none raises, the outcome is the shape of the output tensor.
\<close>

definition unhandled_outcome :: "deps \<Rightarrow> flags \<Rightarrow> exn + int list" where
  "unhandled_outcome d f =
    bind (infer d [SpeechFeatures (speech_features_of f), ExpandDims]
            [batch_size f, desired_samples f]) (\<lambda>s1.
    bind (parse d (cnn_filters f)) (\<lambda>fs.
    bind (parse d (cnn_kernel_size f)) (\<lambda>ks.
    bind (parse d (cnn_act f)) (\<lambda>acts.
    bind (parse d (cnn_dilation_rate f)) (\<lambda>dils.
    bind (parse d (cnn_strides f)) (\<lambda>strs.
    bind (infer d (map conv_layer (zip5 fs ks acts dils strs)) s1) (\<lambda>s2.
    bind (if length s2 < 4 then Inl IndexError
          else infer d [Reshape [- 1, s2 ! 2 * s2 ! 3]] s2) (\<lambda>s3.
    bind (parse d (gru_units f)) (\<lambda>us.
    bind (parse d (return_sequences f)) (\<lambda>rs.
    bind (infer d (map (gru_layer (stateful f)) (zip2 us rs)) s3) (\<lambda>s4.
    bind (infer d [Stream Flatten, Dropout (dropout1 f)] s4) (\<lambda>s5.
    bind (parse d (units1 f)) (\<lambda>us1.
    bind (parse d (act1 f)) (\<lambda>acts1.
    bind (infer d (map hidden_dense (zip2 us1 acts1)) s5) (\<lambda>s6.
    infer d [Dense (PInt (label_count f)) None] s6)))))))))))))))"

text \<open>The outcome of a run that ends in a frame: its exception, or the shape of \<open>net\<close>.\<close>

definition result_shape :: "exn + locals \<Rightarrow> exn + int list" where
  "result_shape r = map_sum id (\<lambda>st. shape (net st)) r"

section \<open>Verification\<close>

subsection \<open>Sequencing and loops\<close>

lemma bind_Inl [simp]: "bind (Inl e) k = Inl e"
  by (simp add: bind_def)

lemma bind_Inr [simp]: "bind (Inr v) k = k v"
  by (simp add: bind_def)

lemma bind_eq_Inr: "(bind r k = Inr y) = (\<exists>v. r = Inr v \<and> k v = Inr y)"
  by (cases r) simp_all

lemma bind_eq_Inl: "(bind r k = Inl e) = (r = Inl e \<or> (\<exists>v. r = Inr v \<and> k v = Inl e))"
  by (cases r) simp_all

lemma infer_append: "infer d (ls @ ls') s = bind (infer d ls s) (infer d ls')"
proof (induction ls arbitrary: s)
  case Nil
  show ?case by simp
next
  case (Cons l ls)
  show ?case
  proof (cases "out_shape d l s")
    case (Inl e)
    then show ?thesis by simp
  next
    case (Inr s1)
    then show ?thesis using Cons.IH [of s1] by simp
  qed
qed

lemma extends_refl: "extends d x x []"
  by (simp add: extends_def)

lemma extends_trans:
  assumes "extends d x t ls" and "extends d t u ls'"
  shows "extends d x u (ls @ ls')"
  using assms by (simp add: extends_def infer_append)

lemma call_extends:
  assumes "call d l x = Inr t"
  shows "extends d x t [l]"
proof (cases "out_shape d l (shape x)")
  case (Inl e)
  with assms show ?thesis by (simp add: call_def)
next
  case (Inr s)
  with assms have "t = \<lparr>producers = producers x @ [l], shape = s\<rparr>"
    by (simp add: call_def)
  with Inr show ?thesis by (simp add: extends_def)
qed

lemma call_Inl:
  assumes "call d l x = Inl e"
  shows "out_shape d l (shape x) = Inl e"
  using assms by (cases "out_shape d l (shape x)") (simp_all add: call_def)

lemma conv_loop_Inr:
  assumes "conv_loop d cs st = Inr st'"
  shows "extends d (net st) (net st') (map conv_layer cs)
         \<and> flags_of st' = flags_of st \<and> input_audio st' = input_audio st"
  using assms
proof (induction cs arbitrary: st)
  case Nil
  then show ?case by (simp add: extends_refl)
next
  case (Cons c cs)
  obtain fi ks ac di sr where c: "c = (fi, ks, ac, di, sr)"
    by (cases c) auto
  from Cons.prems c obtain n where
    n: "call d (Stream (Conv2D fi ks ac di sr)) (net st) = Inr n"
    and rest: "conv_loop d cs (st\<lparr>net := n\<rparr>) = Inr st'"
    by (auto simp: bind_eq_Inr)
  from Cons.IH [OF rest] have ih: "extends d n (net st') (map conv_layer cs)"
    and fr: "flags_of st' = flags_of st" "input_audio st' = input_audio st"
    by simp_all
  from call_extends [OF n] have "extends d (net st) n [conv_layer c]"
    by (simp add: c conv_layer_def)
  from extends_trans [OF this ih] fr show ?case by simp
qed

lemma gru_loop_Inr:
  assumes "gru_loop d gs st = Inr st'"
  shows "extends d (net st) (net st') (map (gru_layer (stateful (flags_of st))) gs)
         \<and> flags_of st' = flags_of st \<and> input_audio st' = input_audio st"
  using assms
proof (induction gs arbitrary: st)
  case Nil
  then show ?case by (simp add: extends_refl)
next
  case (Cons g gs)
  obtain u r where g: "g = (u, r)"
    by (cases g) auto
  from Cons.prems g obtain n where
    n: "call d (GRU u r (stateful (flags_of st))) (net st) = Inr n"
    and rest: "gru_loop d gs (st\<lparr>net := n\<rparr>) = Inr st'"
    by (auto simp: bind_eq_Inr)
  from Cons.IH [OF rest]
  have ih: "extends d n (net st') (map (gru_layer (stateful (flags_of st))) gs)"
    and fr: "flags_of st' = flags_of st" "input_audio st' = input_audio st"
    by simp_all
  from call_extends [OF n]
  have "extends d (net st) n [gru_layer (stateful (flags_of st)) g]"
    by (simp add: g gru_layer_def)
  from extends_trans [OF this ih] fr show ?case by simp
qed

lemma dense_loop_Inr:
  assumes "dense_loop d hs st = Inr st'"
  shows "extends d (net st) (net st') (map hidden_dense hs)
         \<and> flags_of st' = flags_of st \<and> input_audio st' = input_audio st"
  using assms
proof (induction hs arbitrary: st)
  case Nil
  then show ?case by (simp add: extends_refl)
next
  case (Cons h hs)
  obtain u a where h: "h = (u, a)"
    by (cases h) auto
  from Cons.prems h obtain n where
    n: "call d (Dense u (Some a)) (net st) = Inr n"
    and rest: "dense_loop d hs (st\<lparr>net := n\<rparr>) = Inr st'"
    by (auto simp: bind_eq_Inr)
  from Cons.IH [OF rest] have ih: "extends d n (net st') (map hidden_dense hs)"
    and fr: "flags_of st' = flags_of st" "input_audio st' = input_audio st"
    by simp_all
  from call_extends [OF n] have "extends d (net st) n [hidden_dense h]"
    by (simp add: h hidden_dense_def)
  from extends_trans [OF this ih] fr show ?case by simp
qed

subsection \<open>The stages of \<open>model\<close>\<close>

lemma front_end_Inr:
  assumes "front_end d f = Inr st"
  shows "extends d (input_tensor f) (net st) [SpeechFeatures (speech_features_of f), ExpandDims]
         \<and> flags_of st = f \<and> input_audio st = input_tensor f"
proof -
  from assms obtain n1 n2 where
    c1: "call d (SpeechFeatures (speech_features_of f)) (input_tensor f) = Inr n1"
    and c2: "call d ExpandDims n1 = Inr n2"
    and st: "st = \<lparr>flags_of = f, input_audio = input_tensor f, net = n2\<rparr>"
    by (auto simp: front_end_def Let_def bind_eq_Inr)
  from extends_trans [OF call_extends [OF c1] call_extends [OF c2]] st
  show ?thesis by simp
qed

lemma conv_stack_Inr:
  assumes "conv_stack d st = Inr st'"
  shows "\<exists>fs ks acts dils strs.
           parse d (cnn_filters (flags_of st)) = Inr fs
         \<and> parse d (cnn_kernel_size (flags_of st)) = Inr ks
         \<and> parse d (cnn_act (flags_of st)) = Inr acts
         \<and> parse d (cnn_dilation_rate (flags_of st)) = Inr dils
         \<and> parse d (cnn_strides (flags_of st)) = Inr strs
         \<and> extends d (net st) (net st') (map conv_layer (zip5 fs ks acts dils strs))
         \<and> flags_of st' = flags_of st \<and> input_audio st' = input_audio st"
proof -
  from assms obtain fs ks acts dils strs where
    p: "parse d (cnn_filters (flags_of st)) = Inr fs"
       "parse d (cnn_kernel_size (flags_of st)) = Inr ks"
       "parse d (cnn_act (flags_of st)) = Inr acts"
       "parse d (cnn_dilation_rate (flags_of st)) = Inr dils"
       "parse d (cnn_strides (flags_of st)) = Inr strs"
    and l: "conv_loop d (zip5 fs ks acts dils strs) st = Inr st'"
    by (auto simp: conv_stack_def bind_eq_Inr)
  from conv_loop_Inr [OF l] p show ?thesis by blast
qed

lemma collapse_Inr:
  assumes "collapse d st = Inr st'"
  shows "4 \<le> length (shape (net st))
         \<and> extends d (net st) (net st') [Reshape [- 1, shape (net st) ! 2 * shape (net st) ! 3]]
         \<and> flags_of st' = flags_of st \<and> input_audio st' = input_audio st"
proof -
  from assms have len: "\<not> length (shape (net st)) < 4"
    by (auto simp: collapse_def Let_def split: if_splits)
  with assms obtain n where
    c: "call d (Reshape [- 1, shape (net st) ! 2 * shape (net st) ! 3]) (net st) = Inr n"
    and st': "st' = st\<lparr>net := n\<rparr>"
    by (auto simp: collapse_def Let_def bind_eq_Inr)
  from call_extends [OF c] st' len show ?thesis by simp
qed

lemma gru_stack_Inr:
  assumes "gru_stack d st = Inr st'"
  shows "\<exists>us rs.
           parse d (gru_units (flags_of st)) = Inr us
         \<and> parse d (return_sequences (flags_of st)) = Inr rs
         \<and> extends d (net st) (net st') (map (gru_layer (stateful (flags_of st))) (zip2 us rs))
         \<and> flags_of st' = flags_of st \<and> input_audio st' = input_audio st"
proof -
  from assms obtain us rs where
    p: "parse d (gru_units (flags_of st)) = Inr us"
       "parse d (return_sequences (flags_of st)) = Inr rs"
    and l: "gru_loop d (zip2 us rs) st = Inr st'"
    by (auto simp: gru_stack_def bind_eq_Inr)
  from gru_loop_Inr [OF l] p show ?thesis by blast
qed

lemma flatten_dropout_Inr:
  assumes "flatten_dropout d st = Inr st'"
  shows "extends d (net st) (net st') [Stream Flatten, Dropout (dropout1 (flags_of st))]
         \<and> flags_of st' = flags_of st \<and> input_audio st' = input_audio st"
proof -
  from assms obtain n1 n2 where
    c1: "call d (Stream Flatten) (net st) = Inr n1"
    and c2: "call d (Dropout (dropout1 (flags_of st))) n1 = Inr n2"
    and st': "st' = st\<lparr>net := n2\<rparr>"
    by (auto simp: flatten_dropout_def bind_eq_Inr)
  from extends_trans [OF call_extends [OF c1] call_extends [OF c2]] st'
  show ?thesis by simp
qed

lemma dense_stack_Inr:
  assumes "dense_stack d st = Inr st'"
  shows "\<exists>us acts.
           parse d (units1 (flags_of st)) = Inr us
         \<and> parse d (act1 (flags_of st)) = Inr acts
         \<and> extends d (net st) (net st') (map hidden_dense (zip2 us acts))
         \<and> flags_of st' = flags_of st \<and> input_audio st' = input_audio st"
proof -
  from assms obtain us acts where
    p: "parse d (units1 (flags_of st)) = Inr us"
       "parse d (act1 (flags_of st)) = Inr acts"
    and l: "dense_loop d (zip2 us acts) st = Inr st'"
    by (auto simp: dense_stack_def bind_eq_Inr)
  from dense_loop_Inr [OF l] p show ?thesis by blast
qed

lemma classifier_Inr:
  assumes "classifier d st = Inr st'"
  shows "extends d (net st) (net st') [Dense (PInt (label_count (flags_of st))) None]
         \<and> flags_of st' = flags_of st \<and> input_audio st' = input_audio st"
proof -
  from assms obtain n where
    c: "call d (Dense (PInt (label_count (flags_of st))) None) (net st) = Inr n"
    and st': "st' = st\<lparr>net := n\<rparr>"
    by (auto simp: classifier_def bind_eq_Inr)
  from call_extends [OF c] st' show ?thesis by simp
qed

lemma model_locals_Inr:
  assumes "model_locals d f = Inr st"
  obtains fs ks acts dils strs us rs us1 acts1 s2 where
    "parse d (cnn_filters f) = Inr fs"
    "parse d (cnn_kernel_size f) = Inr ks"
    "parse d (cnn_act f) = Inr acts"
    "parse d (cnn_dilation_rate f) = Inr dils"
    "parse d (cnn_strides f) = Inr strs"
    "parse d (gru_units f) = Inr us"
    "parse d (return_sequences f) = Inr rs"
    "parse d (units1 f) = Inr us1"
    "parse d (act1 f) = Inr acts1"
    "bind (front_end d f) (conv_stack d) = Inr s2"
    "4 \<le> length (shape (net s2))"
    "extends d (input_tensor f) (net s2)
       ([SpeechFeatures (speech_features_of f), ExpandDims]
        @ map conv_layer (zip5 fs ks acts dils strs))"
    "extends d (net s2) (net st)
       ([Reshape [- 1, shape (net s2) ! 2 * shape (net s2) ! 3]]
        @ map (gru_layer (stateful f)) (zip2 us rs)
        @ [Stream Flatten, Dropout (dropout1 f)]
        @ map hidden_dense (zip2 us1 acts1)
        @ [Dense (PInt (label_count f)) None])"
    "flags_of st = f"
    "input_audio st = input_tensor f"
proof -
  from assms obtain s1 s2 s3 s4 s5 s6 where
    st1: "front_end d f = Inr s1"
    and st2: "conv_stack d s1 = Inr s2"
    and st3: "collapse d s2 = Inr s3"
    and st4: "gru_stack d s3 = Inr s4"
    and st5: "flatten_dropout d s4 = Inr s5"
    and st6: "dense_stack d s5 = Inr s6"
    and st7: "classifier d s6 = Inr st"
    by (auto simp: model_locals_def bind_eq_Inr)
  note a1 = front_end_Inr [OF st1]
  from conv_stack_Inr [OF st2] a1 obtain fs ks acts dils strs where
    p2: "parse d (cnn_filters f) = Inr fs" "parse d (cnn_kernel_size f) = Inr ks"
        "parse d (cnn_act f) = Inr acts" "parse d (cnn_dilation_rate f) = Inr dils"
        "parse d (cnn_strides f) = Inr strs"
    and e2: "extends d (net s1) (net s2) (map conv_layer (zip5 fs ks acts dils strs))"
    and f2: "flags_of s2 = f" "input_audio s2 = input_tensor f"
    by auto
  note a3 = collapse_Inr [OF st3]
  from a3 f2 have f3: "flags_of s3 = f" "input_audio s3 = input_tensor f"
    by simp_all
  from gru_stack_Inr [OF st4] f3 obtain us rs where
    p4: "parse d (gru_units f) = Inr us" "parse d (return_sequences f) = Inr rs"
    and e4: "extends d (net s3) (net s4) (map (gru_layer (stateful f)) (zip2 us rs))"
    and f4: "flags_of s4 = f" "input_audio s4 = input_tensor f"
    by auto
  from flatten_dropout_Inr [OF st5] f4
  have e5: "extends d (net s4) (net s5) [Stream Flatten, Dropout (dropout1 f)]"
    and f5: "flags_of s5 = f" "input_audio s5 = input_tensor f"
    by simp_all
  from dense_stack_Inr [OF st6] f5 obtain us1 acts1 where
    p6: "parse d (units1 f) = Inr us1" "parse d (act1 f) = Inr acts1"
    and e6: "extends d (net s5) (net s6) (map hidden_dense (zip2 us1 acts1))"
    and f6: "flags_of s6 = f" "input_audio s6 = input_tensor f"
    by auto
  from classifier_Inr [OF st7] f6
  have e7: "extends d (net s6) (net st) [Dense (PInt (label_count f)) None]"
    and f7: "flags_of st = f" "input_audio st = input_tensor f"
    by simp_all
  from st1 st2 have mid: "bind (front_end d f) (conv_stack d) = Inr s2"
    by simp
  from a1 have e1: "extends d (input_tensor f) (net s1)
      [SpeechFeatures (speech_features_of f), ExpandDims]"
    by simp
  note front = extends_trans [OF e1 e2]
  from a3 have e3: "extends d (net s2) (net s3)
      [Reshape [- 1, shape (net s2) ! 2 * shape (net s2) ! 3]]"
    and len: "4 \<le> length (shape (net s2))"
    by simp_all
  note rear = extends_trans [OF e3 extends_trans [OF e4 extends_trans [OF e5
                extends_trans [OF e6 e7]]]]
  from that [OF p2 p4 p6 mid len front rear f7] show ?thesis .
qed

lemma model_Inr:
  assumes "model d f = Inr m"
  obtains st where "model_locals d f = Inr st" "m = Model (input_audio st) (net st)"
    "layers m = producers (net st)" "shape (outputs m) = shape (net st)"
  using assms by (auto simp: model_def bind_eq_Inr Model_def layers_def)

lemma extends_producers: "extends d x t ls \<Longrightarrow> producers t = producers x @ ls"
  by (simp add: extends_def)

lemma extends_infer: "extends d x t ls \<Longrightarrow> infer d ls (shape x) = Inr (shape t)"
  by (simp add: extends_def)

lemma length_zip2: "length (zip2 xs ys) = min (length xs) (length ys)"
  by (induction xs ys rule: zip2.induct) simp_all

lemma length_zip5:
  "length (zip5 as bs cs ds es) =
     min (length as) (min (length bs) (min (length cs) (min (length ds) (length es))))"
  by (induction as bs cs ds es rule: zip5.induct) simp_all

lemma default_model_built: "model ref_deps default_flags = Inr default_model"
  by code_simp

lemma input_producers: "producers (input_tensor f) = [Input [desired_samples f] (batch_size f)]"
  by (simp add: input_tensor_def)

lemma model_layers:
  assumes "model d f = Inr m"
  obtains fs ks acts dils strs us rs us1 acts1 n where
    "parse d (cnn_filters f) = Inr fs"
    "parse d (cnn_kernel_size f) = Inr ks"
    "parse d (cnn_act f) = Inr acts"
    "parse d (cnn_dilation_rate f) = Inr dils"
    "parse d (cnn_strides f) = Inr strs"
    "parse d (gru_units f) = Inr us"
    "parse d (return_sequences f) = Inr rs"
    "parse d (units1 f) = Inr us1"
    "parse d (act1 f) = Inr acts1"
    "layers m =
       [Input [desired_samples f] (batch_size f),
        SpeechFeatures (speech_features_of f), ExpandDims]
       @ map conv_layer (zip5 fs ks acts dils strs)
       @ [Reshape [- 1, n]]
       @ map (gru_layer (stateful f)) (zip2 us rs)
       @ [Stream Flatten, Dropout (dropout1 f)]
       @ map hidden_dense (zip2 us1 acts1)
       @ [Dense (PInt (label_count f)) None]"
proof -
  from assms obtain st where st: "model_locals d f = Inr st"
    and lay: "layers m = producers (net st)"
    by (rule model_Inr)
  from st obtain fs ks acts dils strs us rs us1 acts1 s2 where
    p: "parse d (cnn_filters f) = Inr fs"
       "parse d (cnn_kernel_size f) = Inr ks"
       "parse d (cnn_act f) = Inr acts"
       "parse d (cnn_dilation_rate f) = Inr dils"
       "parse d (cnn_strides f) = Inr strs"
       "parse d (gru_units f) = Inr us"
       "parse d (return_sequences f) = Inr rs"
       "parse d (units1 f) = Inr us1"
       "parse d (act1 f) = Inr acts1"
    and mid: "bind (front_end d f) (conv_stack d) = Inr s2"
    and len: "4 \<le> length (shape (net s2))"
    and e1: "extends d (input_tensor f) (net s2)
       ([SpeechFeatures (speech_features_of f), ExpandDims]
        @ map conv_layer (zip5 fs ks acts dils strs))"
    and e2: "extends d (net s2) (net st)
       ([Reshape [- 1, shape (net s2) ! 2 * shape (net s2) ! 3]]
        @ map (gru_layer (stateful f)) (zip2 us rs)
        @ [Stream Flatten, Dropout (dropout1 f)]
        @ map hidden_dense (zip2 us1 acts1)
        @ [Dense (PInt (label_count f)) None])"
    and fr: "flags_of st = f" "input_audio st = input_tensor f"
    by (rule model_locals_Inr)
  from extends_producers [OF e1] extends_producers [OF e2] lay
  have "layers m =
       [Input [desired_samples f] (batch_size f),
        SpeechFeatures (speech_features_of f), ExpandDims]
       @ map conv_layer (zip5 fs ks acts dils strs)
       @ [Reshape [- 1, shape (net s2) ! 2 * shape (net s2) ! 3]]
       @ map (gru_layer (stateful f)) (zip2 us rs)
       @ [Stream Flatten, Dropout (dropout1 f)]
       @ map hidden_dense (zip2 us1 acts1)
       @ [Dense (PInt (label_count f)) None]"
    by (simp add: input_producers)
  with p show ?thesis by (rule that)
qed

subsection \<open>The layers by kind\<close>

lemma filter_conv_layers [simp]:
  "filter is_conv (map conv_layer cs) = map conv_layer cs"
  "filter is_conv (map (gru_layer sf) gs) = []"
  "filter is_conv (map hidden_dense hs) = []"
  by (induction cs, auto simp: conv_layer_def)
     (induction gs, auto simp: gru_layer_def,
      induction hs, auto simp: hidden_dense_def)

lemma filter_gru_layers [simp]:
  "filter is_gru (map conv_layer cs) = []"
  "filter is_gru (map (gru_layer sf) gs) = map (gru_layer sf) gs"
  "filter is_gru (map hidden_dense hs) = []"
  by (induction cs, auto simp: conv_layer_def)
     (induction gs, auto simp: gru_layer_def,
      induction hs, auto simp: hidden_dense_def)

lemma filter_hidden_layers [simp]:
  "filter is_hidden_dense (map conv_layer cs) = []"
  "filter is_hidden_dense (map (gru_layer sf) gs) = []"
  "filter is_hidden_dense (map hidden_dense hs) = map hidden_dense hs"
  by (induction cs, auto simp: conv_layer_def)
     (induction gs, auto simp: gru_layer_def,
      induction hs, auto simp: hidden_dense_def)

lemma filter_dense_layers [simp]:
  "filter is_dense (map conv_layer cs) = []"
  "filter is_dense (map (gru_layer sf) gs) = []"
  "filter is_dense (map hidden_dense hs) = map hidden_dense hs"
  by (induction cs, auto simp: conv_layer_def)
     (induction gs, auto simp: gru_layer_def,
      induction hs, auto simp: hidden_dense_def)

lemma gru_layer_stateful: "gru_stateful (gru_layer sf g) = Some sf"
  by (cases g) (simp add: gru_layer_def)

lemma not_gru [simp]: "\<not> is_gru (conv_layer c)" "\<not> is_gru (hidden_dense h)"
  by (cases c, simp add: conv_layer_def) (cases h, simp add: hidden_dense_def)

subsection \<open>The reference collaborators on concrete flags\<close>

lemma parse_defaults:
  "parse ref_deps (cnn_filters default_flags) =
     Inr [PInt 64, PInt 64, PInt 64, PInt 64, PInt 64, PInt 64, PInt 128]"
  "parse ref_deps (cnn_kernel_size default_flags) =
     Inr [PTuple [PInt 3, PInt 3], PTuple [PInt 5, PInt 3], PTuple [PInt 5, PInt 3],
          PTuple [PInt 5, PInt 3], PTuple [PInt 5, PInt 2], PTuple [PInt 5, PInt 1],
          PTuple [PInt 5, PInt 1]]"
  "parse ref_deps (cnn_act default_flags) =
     Inr [PStr ''relu'', PStr ''selu'', PStr ''selu'', PStr ''selu'', PStr ''selu'',
          PStr ''selu'', PStr ''selu'']"
  "parse ref_deps (cnn_dilation_rate default_flags) =
     Inr [PTuple [PInt 1, PInt 1], PTuple [PInt 1, PInt 1], PTuple [PInt 2, PInt 1],
          PTuple [PInt 1, PInt 1], PTuple [PInt 2, PInt 1], PTuple [PInt 1, PInt 1],
          PTuple [PInt 2, PInt 1]]"
  "parse ref_deps (cnn_strides default_flags) =
     Inr [PTuple [PInt 1, PInt 1], PTuple [PInt 1, PInt 1], PTuple [PInt 1, PInt 1],
          PTuple [PInt 1, PInt 1], PTuple [PInt 1, PInt 1], PTuple [PInt 1, PInt 1],
          PTuple [PInt 1, PInt 1]]"
  "parse ref_deps (gru_units default_flags) = Inr [PInt 512]"
  "parse ref_deps (return_sequences default_flags) = Inr [PInt 1]"
  "parse ref_deps (units1 default_flags) = Inr []"
  "parse ref_deps (act1 default_flags) = Inr []"
  by code_simp+

lemma parse_uneven:
  "parse ref_deps (cnn_filters uneven_flags) = Inr [PInt 64, PInt 64]"
  "parse ref_deps (cnn_kernel_size uneven_flags) =
     Inr [PTuple [PInt 3, PInt 3], PTuple [PInt 5, PInt 3], PTuple [PInt 5, PInt 3],
          PTuple [PInt 5, PInt 3], PTuple [PInt 5, PInt 2], PTuple [PInt 5, PInt 1],
          PTuple [PInt 5, PInt 1]]"
  "parse ref_deps (cnn_act uneven_flags) =
     Inr [PStr ''relu'', PStr ''selu'', PStr ''selu'', PStr ''selu'', PStr ''selu'',
          PStr ''selu'', PStr ''selu'']"
  "parse ref_deps (cnn_dilation_rate uneven_flags) =
     Inr [PTuple [PInt 1, PInt 1], PTuple [PInt 1, PInt 1], PTuple [PInt 2, PInt 1],
          PTuple [PInt 1, PInt 1], PTuple [PInt 2, PInt 1], PTuple [PInt 1, PInt 1],
          PTuple [PInt 2, PInt 1]]"
  "parse ref_deps (cnn_strides uneven_flags) =
     Inr [PTuple [PInt 1, PInt 1], PTuple [PInt 1, PInt 1], PTuple [PInt 1, PInt 1],
          PTuple [PInt 1, PInt 1], PTuple [PInt 1, PInt 1], PTuple [PInt 1, PInt 1],
          PTuple [PInt 1, PInt 1]]"
  "parse ref_deps (gru_units uneven_flags) = Inr [PInt 512, PInt 256]"
  "parse ref_deps (return_sequences uneven_flags) = Inr [PInt 1]"
  "parse ref_deps (units1 uneven_flags) = Inr [PInt 128, PInt 256]"
  "parse ref_deps (act1 uneven_flags) = Inr [PStr ''relu'']"
  by code_simp+

lemma uneven_model_built: "\<not> isl (model ref_deps uneven_flags)"
  by code_simp

lemma default_locals_built: "\<not> isl (model_locals ref_deps default_flags)"
  by code_simp

subsection \<open>Exceptions\<close>

lemma conv_loop_Inl:
  assumes "conv_loop d cs st = Inl e"
  shows "\<exists>l s. out_shape d l s = Inl e"
  using assms
proof (induction cs arbitrary: st)
  case Nil
  then show ?case by simp
next
  case (Cons c cs)
  obtain fi ks ac di sr where c: "c = (fi, ks, ac, di, sr)"
    by (cases c) auto
  from Cons.prems c
  have "call d (Stream (Conv2D fi ks ac di sr)) (net st) = Inl e
        \<or> (\<exists>n. conv_loop d cs (st\<lparr>net := n\<rparr>) = Inl e)"
    by (auto simp: bind_eq_Inl)
  then show ?case
    using call_Inl Cons.IH by blast
qed

lemma gru_loop_Inl:
  assumes "gru_loop d gs st = Inl e"
  shows "\<exists>l s. out_shape d l s = Inl e"
  using assms
proof (induction gs arbitrary: st)
  case Nil
  then show ?case by simp
next
  case (Cons g gs)
  obtain u r where g: "g = (u, r)"
    by (cases g) auto
  from Cons.prems g
  have "call d (GRU u r (stateful (flags_of st))) (net st) = Inl e
        \<or> (\<exists>n. gru_loop d gs (st\<lparr>net := n\<rparr>) = Inl e)"
    by (auto simp: bind_eq_Inl)
  then show ?case
    using call_Inl Cons.IH by blast
qed

lemma dense_loop_Inl:
  assumes "dense_loop d hs st = Inl e"
  shows "\<exists>l s. out_shape d l s = Inl e"
  using assms
proof (induction hs arbitrary: st)
  case Nil
  then show ?case by simp
next
  case (Cons h hs)
  obtain u a where h: "h = (u, a)"
    by (cases h) auto
  from Cons.prems h
  have "call d (Dense u (Some a)) (net st) = Inl e
        \<or> (\<exists>n. dense_loop d hs (st\<lparr>net := n\<rparr>) = Inl e)"
    by (auto simp: bind_eq_Inl)
  then show ?case
    using call_Inl Cons.IH by blast
qed

lemma front_end_Inl:
  assumes "front_end d f = Inl e"
  shows "\<exists>l s. out_shape d l s = Inl e"
  using assms call_Inl
  by (fastforce simp: front_end_def Let_def bind_eq_Inl)

lemma conv_stack_Inl:
  assumes "conv_stack d st = Inl e"
  shows "(\<exists>s \<in> set (option_strings (flags_of st)). parse d s = Inl e)
         \<or> (\<exists>l s. out_shape d l s = Inl e)"
proof -
  from assms have
    "parse d (cnn_filters (flags_of st)) = Inl e
     \<or> parse d (cnn_kernel_size (flags_of st)) = Inl e
     \<or> parse d (cnn_act (flags_of st)) = Inl e
     \<or> parse d (cnn_dilation_rate (flags_of st)) = Inl e
     \<or> parse d (cnn_strides (flags_of st)) = Inl e
     \<or> (\<exists>cs. conv_loop d cs st = Inl e)"
    by (auto simp: conv_stack_def bind_eq_Inl)
  then show ?thesis
    using conv_loop_Inl by (auto simp: option_strings_def)
qed

lemma collapse_Inl:
  assumes "collapse d st = Inl e"
  shows "e = IndexError \<or> (\<exists>l s. out_shape d l s = Inl e)"
proof (cases "length (shape (net st)) < 4")
  case True
  with assms show ?thesis by (simp add: collapse_def Let_def)
next
  case False
  with assms
  have "call d (Reshape [- 1, shape (net st) ! 2 * shape (net st) ! 3]) (net st) = Inl e"
    by (auto simp: collapse_def Let_def bind_eq_Inl)
  from call_Inl [OF this] show ?thesis by blast
qed

lemma gru_stack_Inl:
  assumes "gru_stack d st = Inl e"
  shows "(\<exists>s \<in> set (option_strings (flags_of st)). parse d s = Inl e)
         \<or> (\<exists>l s. out_shape d l s = Inl e)"
proof -
  from assms have
    "parse d (gru_units (flags_of st)) = Inl e
     \<or> parse d (return_sequences (flags_of st)) = Inl e
     \<or> (\<exists>gs. gru_loop d gs st = Inl e)"
    by (auto simp: gru_stack_def bind_eq_Inl)
  then show ?thesis
    using gru_loop_Inl by (auto simp: option_strings_def)
qed

lemma flatten_dropout_Inl:
  assumes "flatten_dropout d st = Inl e"
  shows "\<exists>l s. out_shape d l s = Inl e"
  using assms call_Inl
  by (fastforce simp: flatten_dropout_def bind_eq_Inl)

lemma dense_stack_Inl:
  assumes "dense_stack d st = Inl e"
  shows "(\<exists>s \<in> set (option_strings (flags_of st)). parse d s = Inl e)
         \<or> (\<exists>l s. out_shape d l s = Inl e)"
proof -
  from assms have
    "parse d (units1 (flags_of st)) = Inl e
     \<or> parse d (act1 (flags_of st)) = Inl e
     \<or> (\<exists>hs. dense_loop d hs st = Inl e)"
    by (auto simp: dense_stack_def bind_eq_Inl)
  then show ?thesis
    using dense_loop_Inl by (auto simp: option_strings_def)
qed

lemma classifier_Inl:
  assumes "classifier d st = Inl e"
  shows "\<exists>l s. out_shape d l s = Inl e"
  using assms call_Inl
  by (fastforce simp: classifier_def bind_eq_Inl)

lemma model_locals_Inl:
  assumes "model_locals d f = Inl e"
  shows "e = IndexError
         \<or> (\<exists>s \<in> set (option_strings f). parse d s = Inl e)
         \<or> (\<exists>l s. out_shape d l s = Inl e)"
proof -
  let ?P = "\<lambda>g. e = IndexError
         \<or> (\<exists>s \<in> set (option_strings g). parse d s = Inl e)
         \<or> (\<exists>l s. out_shape d l s = Inl e)"
  consider
      (1) "front_end d f = Inl e"
    | (2) s1 where "front_end d f = Inr s1" "conv_stack d s1 = Inl e"
    | (3) s1 s2 where "front_end d f = Inr s1" "conv_stack d s1 = Inr s2"
        "collapse d s2 = Inl e"
    | (4) s1 s2 s3 where "front_end d f = Inr s1" "conv_stack d s1 = Inr s2"
        "collapse d s2 = Inr s3" "gru_stack d s3 = Inl e"
    | (5) s1 s2 s3 s4 where "front_end d f = Inr s1" "conv_stack d s1 = Inr s2"
        "collapse d s2 = Inr s3" "gru_stack d s3 = Inr s4" "flatten_dropout d s4 = Inl e"
    | (6) s1 s2 s3 s4 s5 where "front_end d f = Inr s1" "conv_stack d s1 = Inr s2"
        "collapse d s2 = Inr s3" "gru_stack d s3 = Inr s4" "flatten_dropout d s4 = Inr s5"
        "dense_stack d s5 = Inl e"
    | (7) s6 where "classifier d s6 = Inl e"
    using assms unfolding model_locals_def bind_eq_Inl by blast
  then show ?thesis
  proof cases
    case 1
    from front_end_Inl [OF this] show ?thesis by blast
  next
    case 2
    from front_end_Inr [OF 2(1)] have "flags_of s1 = f" by simp
    with conv_stack_Inl [OF 2(2)] show ?thesis by auto
  next
    case 3
    from collapse_Inl [OF 3(3)] show ?thesis by blast
  next
    case 4
    from front_end_Inr [OF 4(1)] conv_stack_Inr [OF 4(2)] collapse_Inr [OF 4(3)]
    have "flags_of s3 = f" by auto
    with gru_stack_Inl [OF 4(4)] show ?thesis by auto
  next
    case 5
    from flatten_dropout_Inl [OF 5(5)] show ?thesis by blast
  next
    case 6
    from front_end_Inr [OF 6(1)] conv_stack_Inr [OF 6(2)] collapse_Inr [OF 6(3)]
      gru_stack_Inr [OF 6(4)] flatten_dropout_Inr [OF 6(5)]
    have "flags_of s5 = f" by auto
    with dense_stack_Inl [OF 6(6)] show ?thesis by auto
  next
    case 7
    from classifier_Inl [OF this] show ?thesis by blast
  qed
qed

lemma model_Inl:
  assumes "model d f = Inl e"
  shows "model_locals d f = Inl e"
  using assms by (auto simp: model_def bind_eq_Inl)

lemma model_infer:
  assumes "model d f = Inr m"
  shows "infer d (tl (layers m)) [batch_size f, desired_samples f] = Inr (shape (outputs m))"
proof -
  from assms obtain st where st: "model_locals d f = Inr st"
    and lay: "layers m = producers (net st)"
    and sh: "shape (outputs m) = shape (net st)"
    by (rule model_Inr)
  from st obtain fs ks acts dils strs us rs us1 acts1 s2 where
    p: "parse d (cnn_filters f) = Inr fs"
       "parse d (cnn_kernel_size f) = Inr ks"
       "parse d (cnn_act f) = Inr acts"
       "parse d (cnn_dilation_rate f) = Inr dils"
       "parse d (cnn_strides f) = Inr strs"
       "parse d (gru_units f) = Inr us"
       "parse d (return_sequences f) = Inr rs"
       "parse d (units1 f) = Inr us1"
       "parse d (act1 f) = Inr acts1"
    and mid: "bind (front_end d f) (conv_stack d) = Inr s2"
    and len: "4 \<le> length (shape (net s2))"
    and e1: "extends d (input_tensor f) (net s2)
       ([SpeechFeatures (speech_features_of f), ExpandDims]
        @ map conv_layer (zip5 fs ks acts dils strs))"
    and e2: "extends d (net s2) (net st)
       ([Reshape [- 1, shape (net s2) ! 2 * shape (net s2) ! 3]]
        @ map (gru_layer (stateful f)) (zip2 us rs)
        @ [Stream Flatten, Dropout (dropout1 f)]
        @ map hidden_dense (zip2 us1 acts1)
        @ [Dense (PInt (label_count f)) None])"
    and fr: "flags_of st = f" "input_audio st = input_tensor f"
    by (rule model_locals_Inr)
  note e = extends_trans [OF e1 e2]
  from extends_producers [OF e] lay have "tl (layers m) =
       ([SpeechFeatures (speech_features_of f), ExpandDims]
        @ map conv_layer (zip5 fs ks acts dils strs))
       @ [Reshape [- 1, shape (net s2) ! 2 * shape (net s2) ! 3]]
        @ map (gru_layer (stateful f)) (zip2 us rs)
        @ [Stream Flatten, Dropout (dropout1 f)]
        @ map hidden_dense (zip2 us1 acts1)
        @ [Dense (PInt (label_count f)) None]"
    by (simp add: input_producers)
  with extends_infer [OF e] sh show ?thesis
    by (simp add: input_tensor_def)
qed

subsection \<open>Shapes along the chain\<close>

lemma infer_keeps_batch:
  assumes batch: "\<And>l b s s'. out_shape d l (b # s) = Inr s' \<Longrightarrow> \<exists>r. s' = b # r"
    and "infer d ls (b # s) = Inr s'"
  shows "\<exists>r. s' = b # r"
  using assms(2)
proof (induction ls arbitrary: s)
  case Nil
  then show ?case by auto
next
  case (Cons l ls)
  from Cons.prems obtain s1 where
    s1: "out_shape d l (b # s) = Inr s1" and rest: "infer d ls s1 = Inr s'"
    by (auto simp: bind_eq_Inr)
  from batch [OF s1] obtain r where "s1 = b # r" ..
  with rest Cons.IH show ?case by blast
qed

lemma infer_hidden_rank:
  assumes dense: "\<And>u a s s'. out_shape d (Dense u a) s = Inr s' \<Longrightarrow> length s' = length s"
    and "infer d (map hidden_dense hs) s = Inr s'"
  shows "length s' = length s"
  using assms(2)
proof (induction hs arbitrary: s)
  case Nil
  then show ?case by simp
next
  case (Cons h hs)
  obtain u a where h: "h = (u, a)"
    by (cases h) auto
  from Cons.prems h obtain s1 where
    s1: "out_shape d (Dense u (Some a)) s = Inr s1"
    and rest: "infer d (map hidden_dense hs) s1 = Inr s'"
    by (auto simp: bind_eq_Inr hidden_dense_def)
  from dense [OF s1] Cons.IH [OF rest] show ?case by simp
qed

subsection \<open>The reference shape rules meet the layer contracts\<close>

lemma keras_reshape_rule:
  assumes "out_shape ref_deps (Reshape [- 1, n]) (b # rest) = Inr s'"
  shows "\<exists>k. s' = [b, k, n] \<and> k * n = prod_list rest \<and> n \<noteq> 0"
proof (cases "n < 0")
  case True
  with assms show ?thesis
    by (simp add: ref_deps_def keras_reshape_def)
next
  case False
  with assms have ok: "n \<noteq> 0" "prod_list rest mod n = 0"
    and s': "s' = [b, prod_list rest div n, n]"
    by (auto simp: ref_deps_def keras_reshape_def Let_def split: if_splits)
  from ok have "prod_list rest div n * n = prod_list rest"
    by auto
  with s' ok show ?thesis by blast
qed

lemma keras_flatten_rank:
  assumes "out_shape ref_deps (Stream Flatten) s = Inr s'"
  shows "length s' = 2"
  using assms by (cases s) (auto simp: ref_deps_def batch_first_def)

lemma keras_dropout_same:
  assumes "out_shape ref_deps (Dropout r) s = Inr s'"
  shows "s' = s"
  using assms by (simp add: ref_deps_def)

lemma as_int_Inr: "as_int v = Inr n \<Longrightarrow> v = PInt n"
  by (cases v) (simp_all add: as_int_def)

lemma keras_dense_rank:
  assumes "out_shape ref_deps (Dense u a) s = Inr s'"
  shows "length s' = length s"
  using assms
  by (auto simp: ref_deps_def dense_shape_def bind_eq_Inr split: if_splits)

lemma keras_dense_units:
  assumes "out_shape ref_deps (Dense (PInt n) a) s = Inr s'"
  shows "last s' = n"
  using assms
  by (auto simp: ref_deps_def dense_shape_def bind_eq_Inr as_int_def split: if_splits)

lemma speech_shape_batch:
  assumes "speech_shape p (b # s) = Inr s'"
  shows "\<exists>r. s' = b # r"
proof -
  from assms obtain size_ms step_ms rate feats where
    c: "(case b # s of
         [b, n] \<Rightarrow>
           (let frame_size = rate * size_ms div 1000; frame_step = rate * step_ms div 1000
            in if 0 < frame_size \<and> 0 < frame_step \<and> frame_size \<le> n \<and> 0 < feats
               then Inr [b, (n - frame_size) div frame_step + 1, feats]
               else Inl (LayerError ''SpeechFeatures''))
       | _ \<Rightarrow> Inl (LayerError ''SpeechFeatures'')) = Inr s'"
    by (auto simp: speech_shape_def bind_eq_Inr)
  show ?thesis
  proof (cases s)
    case Nil
    with c show ?thesis by simp
  next
    case (Cons n r)
    with c show ?thesis
      by (cases r) (auto simp: Let_def split: if_splits)
  qed
qed

lemma conv_shape_batch:
  assumes "conv_shape fi ks di sr (b # s) = Inr s'"
  shows "\<exists>r. s' = b # r"
proof -
  from assms obtain n kh kw dh dw sh sw where
    c: "(case b # s of
         [b, t, fe, c] \<Rightarrow>
           (let t_out = conv_dim t kh dh sh; fe_out = conv_dim fe kw dw sw
            in if 0 < n \<and> 0 < kh \<and> 0 < kw \<and> 0 < dh \<and> 0 < dw \<and> 0 < sh \<and> 0 < sw
                  \<and> 0 < t_out \<and> 0 < fe_out
               then Inr [b, t_out, fe_out, n]
               else Inl (LayerError ''Conv2D''))
       | _ \<Rightarrow> Inl (LayerError ''Conv2D'')) = Inr s'"
    by (auto simp: conv_shape_def bind_eq_Inr)
  then show ?thesis
    by (auto simp: Let_def split: list.splits if_splits)
qed

lemma gru_shape_batch:
  assumes "gru_shape u rs (b # s) = Inr s'"
  shows "\<exists>r. s' = b # r"
proof -
  from assms obtain n where
    c: "(case b # s of
         [b, t, fe] \<Rightarrow>
           (if 0 < n then (if truthy rs then Inr [b, t, n] else Inr [b, n])
            else Inl (LayerError ''GRU''))
       | _ \<Rightarrow> Inl (LayerError ''GRU'')) = Inr s'"
    by (auto simp: gru_shape_def bind_eq_Inr)
  then show ?thesis
    by (auto split: list.splits if_splits)
qed

lemma keras_keeps_batch:
  assumes "out_shape ref_deps l (b # s) = Inr s'"
  shows "\<exists>r. s' = b # r"
proof (cases l)
  case (Input x1 x2)
  with assms show ?thesis by (simp add: ref_deps_def)
next
  case (SpeechFeatures p)
  with assms show ?thesis
    by (simp add: ref_deps_def speech_shape_batch)
next
  case ExpandDims
  with assms show ?thesis by (auto simp: ref_deps_def batch_first_def)
next
  case (Stream c)
  show ?thesis
  proof (cases c)
    case (Conv2D fi ks ac di sr)
    with Stream assms show ?thesis
      by (simp add: ref_deps_def conv_shape_batch)
  next
    case Flatten
    with Stream assms show ?thesis by (auto simp: ref_deps_def batch_first_def)
  qed
next
  case (Reshape tg)
  with assms show ?thesis
    by (auto simp: ref_deps_def keras_reshape_def Let_def split: if_splits)
next
  case (GRU u r sf)
  with assms show ?thesis
    by (simp add: ref_deps_def gru_shape_batch)
next
  case (Dropout r)
  with assms show ?thesis by (auto simp: ref_deps_def)
next
  case (Dense u a)
  with assms obtain n where "2 \<le> length (b # s)" "s' = butlast (b # s) @ [n]"
    by (auto simp: ref_deps_def dense_shape_def bind_eq_Inr split: if_splits)
  then show ?thesis by (cases s) auto
qed

subsection \<open>A malformed option string\<close>

lemma malformed_parse:
  "parse ref_deps (cnn_kernel_size malformed_flags) = Inl (ParseError [])"
  by code_simp

lemma malformed_model: "model ref_deps malformed_flags = Inl (ParseError [])"
  by code_simp

subsection \<open>The frame between the convolutions and the Reshape\<close>

lemma model_locals_collapse:
  assumes "model_locals d f = Inr st"
  obtains s2 s3 cs rest where
    "bind (front_end d f) (conv_stack d) = Inr s2"
    "collapse d s2 = Inr s3"
    "producers (net s2) =
       [Input [desired_samples f] (batch_size f),
        SpeechFeatures (speech_features_of f), ExpandDims] @ map conv_layer cs"
    "producers (net st) = producers (net s3) @ rest"
proof -
  from assms obtain s1 s2 s3 s4 s5 s6 where
    st1: "front_end d f = Inr s1"
    and st2: "conv_stack d s1 = Inr s2"
    and st3: "collapse d s2 = Inr s3"
    and st4: "gru_stack d s3 = Inr s4"
    and st5: "flatten_dropout d s4 = Inr s5"
    and st6: "dense_stack d s5 = Inr s6"
    and st7: "classifier d s6 = Inr st"
    by (auto simp: model_locals_def bind_eq_Inr)
  from st1 st2 have mid: "bind (front_end d f) (conv_stack d) = Inr s2"
    by simp
  from front_end_Inr [OF st1] conv_stack_Inr [OF st2]
  obtain cs where "producers (net s2) =
       [Input [desired_samples f] (batch_size f),
        SpeechFeatures (speech_features_of f), ExpandDims] @ map conv_layer cs"
    by (auto simp: extends_def input_producers)
  moreover
  from gru_stack_Inr [OF st4] flatten_dropout_Inr [OF st5] dense_stack_Inr [OF st6]
    classifier_Inr [OF st7]
  obtain rest where "producers (net st) = producers (net s3) @ rest"
    by (auto simp: extends_def)
  ultimately show ?thesis
    using mid st3 by (rule that [rotated 2])
qed

lemma default_after_conv:
  "map_sum id (\<lambda>st. shape (net st)) (bind (front_end ref_deps default_flags) (conv_stack ref_deps))
     = Inr [100, 11, 11, 128]"
  by code_simp

subsection \<open>Further concrete flags\<close>

lemma parse_wide:
  "parse ref_deps (cnn_filters wide_flags) =
     Inr [PInt 64, PInt 64, PInt 64, PInt 64, PInt 64, PInt 64, PInt 256]"
  "parse ref_deps (cnn_kernel_size wide_flags) =
     Inr [PTuple [PInt 3, PInt 3], PTuple [PInt 5, PInt 3], PTuple [PInt 5, PInt 3],
          PTuple [PInt 5, PInt 3], PTuple [PInt 5, PInt 2], PTuple [PInt 5, PInt 1],
          PTuple [PInt 5, PInt 1]]"
  "parse ref_deps (cnn_act wide_flags) =
     Inr [PStr ''relu'', PStr ''selu'', PStr ''selu'', PStr ''selu'', PStr ''selu'',
          PStr ''selu'', PStr ''selu'']"
  "parse ref_deps (cnn_dilation_rate wide_flags) =
     Inr [PTuple [PInt 1, PInt 1], PTuple [PInt 1, PInt 1], PTuple [PInt 2, PInt 1],
          PTuple [PInt 1, PInt 1], PTuple [PInt 2, PInt 1], PTuple [PInt 1, PInt 1],
          PTuple [PInt 2, PInt 1]]"
  "parse ref_deps (cnn_strides wide_flags) =
     Inr [PTuple [PInt 1, PInt 1], PTuple [PInt 1, PInt 1], PTuple [PInt 1, PInt 1],
          PTuple [PInt 1, PInt 1], PTuple [PInt 1, PInt 1], PTuple [PInt 1, PInt 1],
          PTuple [PInt 1, PInt 1]]"
  "parse ref_deps (gru_units wide_flags) = Inr [PInt 512]"
  "parse ref_deps (return_sequences wide_flags) = Inr [PInt 1]"
  "parse ref_deps (units1 wide_flags) = Inr []"
  "parse ref_deps (act1 wide_flags) = Inr []"
  by code_simp+

lemma wide_model_built: "\<not> isl (model ref_deps wide_flags)"
  by code_simp

lemma wide_conv_shape:
  "infer ref_deps
     ([SpeechFeatures (speech_features_of wide_flags), ExpandDims]
      @ map conv_layer (zip5
           [PInt 64, PInt 64, PInt 64, PInt 64, PInt 64, PInt 64, PInt 256]
           [PTuple [PInt 3, PInt 3], PTuple [PInt 5, PInt 3], PTuple [PInt 5, PInt 3],
            PTuple [PInt 5, PInt 3], PTuple [PInt 5, PInt 2], PTuple [PInt 5, PInt 1],
            PTuple [PInt 5, PInt 1]]
           [PStr ''relu'', PStr ''selu'', PStr ''selu'', PStr ''selu'', PStr ''selu'',
            PStr ''selu'', PStr ''selu'']
           [PTuple [PInt 1, PInt 1], PTuple [PInt 1, PInt 1], PTuple [PInt 2, PInt 1],
            PTuple [PInt 1, PInt 1], PTuple [PInt 2, PInt 1], PTuple [PInt 1, PInt 1],
            PTuple [PInt 2, PInt 1]]
           [PTuple [PInt 1, PInt 1], PTuple [PInt 1, PInt 1], PTuple [PInt 1, PInt 1],
            PTuple [PInt 1, PInt 1], PTuple [PInt 1, PInt 1], PTuple [PInt 1, PInt 1],
            PTuple [PInt 1, PInt 1]]))
     [batch_size wide_flags, desired_samples wide_flags] = Inr [100, 11, 11, 256]"
  by code_simp

lemma parse_two_gru:
  "parse ref_deps (gru_units two_gru_flags) = Inr [PInt 512, PInt 256]"
  "parse ref_deps (return_sequences two_gru_flags) = Inr [PInt 1, PInt 0]"
  by code_simp+

lemma two_gru_model_built: "\<not> isl (model ref_deps two_gru_flags)"
  by code_simp

lemma no_labels_outcome:
  "unhandled_outcome ref_deps no_labels_flags = Inl (LayerError ''Dense'')"
  by code_simp

lemma tall_kernel_outcome:
  "unhandled_outcome ref_deps tall_kernel_flags = Inl (LayerError ''Conv2D'')"
  by code_simp

subsection \<open>The outcome of \<open>model\<close>, stage by stage\<close>

lemma result_shape_simps [simp]:
  "result_shape (Inl e) = Inl e"
  "result_shape (Inr st) = Inr (shape (net st))"
  by (simp_all add: result_shape_def)

lemma bind_assoc: "bind (bind r k) h = bind r (\<lambda>v. bind (k v) h)"
  by (cases r) simp_all

lemma bind_return [simp]: "bind r Inr = r"
  by (cases r) simp_all

lemma bind_infer_Nil [simp]: "bind r (infer d []) = r"
  by (cases r) simp_all

lemma call_shape:
  "bind (call d l x) (\<lambda>n. Inr (shape n)) = out_shape d l (shape x)"
  by (cases "out_shape d l (shape x)") (simp_all add: call_def)

lemma result_shape_bind:
  assumes "\<And>v. r = Inr v \<Longrightarrow> result_shape (k v) = h v"
  shows "result_shape (bind r k) = bind r h"
  using assms by (cases r) simp_all

lemma result_shape_call:
  "result_shape (bind (call d l (net st)) (\<lambda>n. Inr (st\<lparr>net := n\<rparr>)))
     = out_shape d l (shape (net st))"
  by (cases "out_shape d l (shape (net st))") (simp_all add: call_def)

lemma conv_loop_shape:
  "result_shape (conv_loop d cs st) = infer d (map conv_layer cs) (shape (net st))"
proof (induction cs arbitrary: st)
  case Nil
  show ?case by simp
next
  case (Cons c cs)
  obtain fi ks ac di sr where c: "c = (fi, ks, ac, di, sr)"
    by (cases c) auto
  show ?case
  proof (cases "out_shape d (Stream (Conv2D fi ks ac di sr)) (shape (net st))")
    case (Inl e)
    then show ?thesis by (simp add: c conv_layer_def call_def)
  next
    case (Inr s)
    then show ?thesis
      using Cons.IH [of "st\<lparr>net := \<lparr>producers = producers (net st)
          @ [Stream (Conv2D fi ks ac di sr)], shape = s\<rparr>\<rparr>"]
      by (simp add: c conv_layer_def call_def)
  qed
qed

lemma gru_loop_shape:
  "result_shape (gru_loop d gs st)
     = infer d (map (gru_layer (stateful (flags_of st))) gs) (shape (net st))"
proof (induction gs arbitrary: st)
  case Nil
  show ?case by simp
next
  case (Cons g gs)
  obtain u r where g: "g = (u, r)"
    by (cases g) auto
  show ?case
  proof (cases "out_shape d (GRU u r (stateful (flags_of st))) (shape (net st))")
    case (Inl e)
    then show ?thesis by (simp add: g gru_layer_def call_def)
  next
    case (Inr s)
    then show ?thesis
      using Cons.IH [of "st\<lparr>net := \<lparr>producers = producers (net st)
          @ [GRU u r (stateful (flags_of st))], shape = s\<rparr>\<rparr>"]
      by (simp add: g gru_layer_def call_def)
  qed
qed

lemma dense_loop_shape:
  "result_shape (dense_loop d hs st) = infer d (map hidden_dense hs) (shape (net st))"
proof (induction hs arbitrary: st)
  case Nil
  show ?case by simp
next
  case (Cons h hs)
  obtain u a where h: "h = (u, a)"
    by (cases h) auto
  show ?case
  proof (cases "out_shape d (Dense u (Some a)) (shape (net st))")
    case (Inl e)
    then show ?thesis by (simp add: h hidden_dense_def call_def)
  next
    case (Inr s)
    then show ?thesis
      using Cons.IH [of "st\<lparr>net := \<lparr>producers = producers (net st)
          @ [Dense u (Some a)], shape = s\<rparr>\<rparr>"]
      by (simp add: h hidden_dense_def call_def)
  qed
qed

lemma front_end_shape:
  "result_shape (front_end d f)
     = infer d [SpeechFeatures (speech_features_of f), ExpandDims]
         [batch_size f, desired_samples f]"
proof (cases "out_shape d (SpeechFeatures (speech_features_of f))
                [batch_size f, desired_samples f]")
  case (Inl e)
  then show ?thesis
    by (simp add: front_end_def Let_def call_def input_tensor_def)
next
  case (Inr s)
  then show ?thesis
    by (cases "out_shape d ExpandDims s")
       (simp_all add: front_end_def Let_def call_def input_tensor_def)
qed

lemma conv_stack_shape:
  "result_shape (conv_stack d st) =
    bind (parse d (cnn_filters (flags_of st))) (\<lambda>fs.
    bind (parse d (cnn_kernel_size (flags_of st))) (\<lambda>ks.
    bind (parse d (cnn_act (flags_of st))) (\<lambda>acts.
    bind (parse d (cnn_dilation_rate (flags_of st))) (\<lambda>dils.
    bind (parse d (cnn_strides (flags_of st))) (\<lambda>strs.
    infer d (map conv_layer (zip5 fs ks acts dils strs)) (shape (net st)))))))"
  unfolding conv_stack_def
  by (intro result_shape_bind conv_loop_shape)

lemma collapse_shape:
  "result_shape (collapse d st) =
    (if length (shape (net st)) < 4 then Inl IndexError
     else infer d [Reshape [- 1, shape (net st) ! 2 * shape (net st) ! 3]] (shape (net st)))"
  by (simp add: collapse_def Let_def result_shape_call)

lemma gru_stack_shape:
  "result_shape (gru_stack d st) =
    bind (parse d (gru_units (flags_of st))) (\<lambda>us.
    bind (parse d (return_sequences (flags_of st))) (\<lambda>rs.
    infer d (map (gru_layer (stateful (flags_of st))) (zip2 us rs)) (shape (net st))))"
  unfolding gru_stack_def
  by (intro result_shape_bind gru_loop_shape)

lemma flatten_dropout_shape:
  "result_shape (flatten_dropout d st) =
    infer d [Stream Flatten, Dropout (dropout1 (flags_of st))] (shape (net st))"
proof (cases "out_shape d (Stream Flatten) (shape (net st))")
  case (Inl e)
  then show ?thesis by (simp add: flatten_dropout_def call_def)
next
  case (Inr s)
  then show ?thesis
    by (cases "out_shape d (Dropout (dropout1 (flags_of st))) s")
       (simp_all add: flatten_dropout_def call_def)
qed

lemma dense_stack_shape:
  "result_shape (dense_stack d st) =
    bind (parse d (units1 (flags_of st))) (\<lambda>us.
    bind (parse d (act1 (flags_of st))) (\<lambda>acts.
    infer d (map hidden_dense (zip2 us acts)) (shape (net st))))"
  unfolding dense_stack_def
  by (intro result_shape_bind dense_loop_shape)

lemma classifier_shape:
  "result_shape (classifier d st) =
    infer d [Dense (PInt (label_count (flags_of st))) None] (shape (net st))"
  by (simp add: classifier_def result_shape_call)


lemma stage_flags:
  "front_end d f = Inr st' \<Longrightarrow> flags_of st' = f"
  "conv_stack d st = Inr st' \<Longrightarrow> flags_of st' = flags_of st"
  "collapse d st = Inr st' \<Longrightarrow> flags_of st' = flags_of st"
  "gru_stack d st = Inr st' \<Longrightarrow> flags_of st' = flags_of st"
  "flatten_dropout d st = Inr st' \<Longrightarrow> flags_of st' = flags_of st"
  "dense_stack d st = Inr st' \<Longrightarrow> flags_of st' = flags_of st"
  using front_end_Inr conv_stack_Inr collapse_Inr gru_stack_Inr flatten_dropout_Inr
    dense_stack_Inr
  by blast+

lemma result_shape_stage:
  assumes "\<And>v. r = Inr v \<Longrightarrow> result_shape (k v) = h (shape (net v))"
  shows "result_shape (bind r k) = bind (result_shape r) h"
  using assms by (cases r) simp_all

lemma model_locals_shape: "result_shape (model_locals d f) = unhandled_outcome d f"
proof -
  have 7: "result_shape (classifier d st)
      = infer d [Dense (PInt (label_count f)) None] (shape (net st))"
    if "flags_of st = f" for st
    using that by (simp add: classifier_shape)
  have 6: "result_shape (bind (dense_stack d st) (classifier d))
      = bind (parse d (units1 f)) (\<lambda>us1.
        bind (parse d (act1 f)) (\<lambda>acts1.
        bind (infer d (map hidden_dense (zip2 us1 acts1)) (shape (net st))) (\<lambda>s6.
        infer d [Dense (PInt (label_count f)) None] s6)))"
    if fl: "flags_of st = f" for st
  proof -
    have "result_shape (bind (dense_stack d st) (classifier d))
        = bind (result_shape (dense_stack d st))
            (infer d [Dense (PInt (label_count f)) None])"
      by (rule result_shape_stage) (simp add: 7 stage_flags fl)
    then show ?thesis
      by (simp only: dense_stack_shape fl bind_assoc)
  qed
  have 5: "result_shape (bind (flatten_dropout d st) (\<lambda>s5.
             bind (dense_stack d s5) (classifier d)))
      = bind (infer d [Stream Flatten, Dropout (dropout1 f)] (shape (net st))) (\<lambda>s5.
        bind (parse d (units1 f)) (\<lambda>us1.
        bind (parse d (act1 f)) (\<lambda>acts1.
        bind (infer d (map hidden_dense (zip2 us1 acts1)) s5) (\<lambda>s6.
        infer d [Dense (PInt (label_count f)) None] s6))))"
    if fl: "flags_of st = f" for st
  proof -
    have "result_shape (bind (flatten_dropout d st) (\<lambda>s5.
             bind (dense_stack d s5) (classifier d)))
        = bind (result_shape (flatten_dropout d st)) (\<lambda>s5.
            bind (parse d (units1 f)) (\<lambda>us1.
            bind (parse d (act1 f)) (\<lambda>acts1.
            bind (infer d (map hidden_dense (zip2 us1 acts1)) s5) (\<lambda>s6.
            infer d [Dense (PInt (label_count f)) None] s6))))"
      by (rule result_shape_stage) (simp add: 6 stage_flags fl)
    then show ?thesis
      by (simp only: flatten_dropout_shape fl)
  qed
  have 4: "result_shape (bind (gru_stack d st) (\<lambda>s4.
             bind (flatten_dropout d s4) (\<lambda>s5.
             bind (dense_stack d s5) (classifier d))))
      = bind (parse d (gru_units f)) (\<lambda>us.
        bind (parse d (return_sequences f)) (\<lambda>rs.
        bind (infer d (map (gru_layer (stateful f)) (zip2 us rs)) (shape (net st))) (\<lambda>s4.
        bind (infer d [Stream Flatten, Dropout (dropout1 f)] s4) (\<lambda>s5.
        bind (parse d (units1 f)) (\<lambda>us1.
        bind (parse d (act1 f)) (\<lambda>acts1.
        bind (infer d (map hidden_dense (zip2 us1 acts1)) s5) (\<lambda>s6.
        infer d [Dense (PInt (label_count f)) None] s6)))))))"
    if fl: "flags_of st = f" for st
  proof -
    have "result_shape (bind (gru_stack d st) (\<lambda>s4.
             bind (flatten_dropout d s4) (\<lambda>s5.
             bind (dense_stack d s5) (classifier d))))
        = bind (result_shape (gru_stack d st)) (\<lambda>s4.
            bind (infer d [Stream Flatten, Dropout (dropout1 f)] s4) (\<lambda>s5.
            bind (parse d (units1 f)) (\<lambda>us1.
            bind (parse d (act1 f)) (\<lambda>acts1.
            bind (infer d (map hidden_dense (zip2 us1 acts1)) s5) (\<lambda>s6.
            infer d [Dense (PInt (label_count f)) None] s6)))))"
      by (rule result_shape_stage) (simp add: 5 stage_flags fl)
    then show ?thesis
      by (simp only: gru_stack_shape fl bind_assoc)
  qed
  have 3: "result_shape (bind (collapse d st) (\<lambda>s3.
             bind (gru_stack d s3) (\<lambda>s4.
             bind (flatten_dropout d s4) (\<lambda>s5.
             bind (dense_stack d s5) (classifier d)))))
      = bind (if length (shape (net st)) < 4 then Inl IndexError
              else infer d [Reshape [- 1, shape (net st) ! 2 * shape (net st) ! 3]]
                     (shape (net st))) (\<lambda>s3.
        bind (parse d (gru_units f)) (\<lambda>us.
        bind (parse d (return_sequences f)) (\<lambda>rs.
        bind (infer d (map (gru_layer (stateful f)) (zip2 us rs)) s3) (\<lambda>s4.
        bind (infer d [Stream Flatten, Dropout (dropout1 f)] s4) (\<lambda>s5.
        bind (parse d (units1 f)) (\<lambda>us1.
        bind (parse d (act1 f)) (\<lambda>acts1.
        bind (infer d (map hidden_dense (zip2 us1 acts1)) s5) (\<lambda>s6.
        infer d [Dense (PInt (label_count f)) None] s6))))))))"
    if fl: "flags_of st = f" for st
  proof -
    have "result_shape (bind (collapse d st) (\<lambda>s3.
             bind (gru_stack d s3) (\<lambda>s4.
             bind (flatten_dropout d s4) (\<lambda>s5.
             bind (dense_stack d s5) (classifier d)))))
        = bind (result_shape (collapse d st)) (\<lambda>s3.
            bind (parse d (gru_units f)) (\<lambda>us.
            bind (parse d (return_sequences f)) (\<lambda>rs.
            bind (infer d (map (gru_layer (stateful f)) (zip2 us rs)) s3) (\<lambda>s4.
            bind (infer d [Stream Flatten, Dropout (dropout1 f)] s4) (\<lambda>s5.
            bind (parse d (units1 f)) (\<lambda>us1.
            bind (parse d (act1 f)) (\<lambda>acts1.
            bind (infer d (map hidden_dense (zip2 us1 acts1)) s5) (\<lambda>s6.
            infer d [Dense (PInt (label_count f)) None] s6))))))))"
      by (rule result_shape_stage) (simp add: 4 stage_flags fl)
    then show ?thesis
      by (simp only: collapse_shape)
  qed
  have 2: "result_shape (bind (conv_stack d st) (\<lambda>s2.
             bind (collapse d s2) (\<lambda>s3.
             bind (gru_stack d s3) (\<lambda>s4.
             bind (flatten_dropout d s4) (\<lambda>s5.
             bind (dense_stack d s5) (classifier d))))))
      = bind (parse d (cnn_filters f)) (\<lambda>fs.
        bind (parse d (cnn_kernel_size f)) (\<lambda>ks.
        bind (parse d (cnn_act f)) (\<lambda>acts.
        bind (parse d (cnn_dilation_rate f)) (\<lambda>dils.
        bind (parse d (cnn_strides f)) (\<lambda>strs.
        bind (infer d (map conv_layer (zip5 fs ks acts dils strs)) (shape (net st))) (\<lambda>s2.
        bind (if length s2 < 4 then Inl IndexError
              else infer d [Reshape [- 1, s2 ! 2 * s2 ! 3]] s2) (\<lambda>s3.
        bind (parse d (gru_units f)) (\<lambda>us.
        bind (parse d (return_sequences f)) (\<lambda>rs.
        bind (infer d (map (gru_layer (stateful f)) (zip2 us rs)) s3) (\<lambda>s4.
        bind (infer d [Stream Flatten, Dropout (dropout1 f)] s4) (\<lambda>s5.
        bind (parse d (units1 f)) (\<lambda>us1.
        bind (parse d (act1 f)) (\<lambda>acts1.
        bind (infer d (map hidden_dense (zip2 us1 acts1)) s5) (\<lambda>s6.
        infer d [Dense (PInt (label_count f)) None] s6))))))))))))))"
    if fl: "flags_of st = f" for st
  proof -
    have "result_shape (bind (conv_stack d st) (\<lambda>s2.
             bind (collapse d s2) (\<lambda>s3.
             bind (gru_stack d s3) (\<lambda>s4.
             bind (flatten_dropout d s4) (\<lambda>s5.
             bind (dense_stack d s5) (classifier d))))))
        = bind (result_shape (conv_stack d st)) (\<lambda>s2.
            bind (if length s2 < 4 then Inl IndexError
                  else infer d [Reshape [- 1, s2 ! 2 * s2 ! 3]] s2) (\<lambda>s3.
            bind (parse d (gru_units f)) (\<lambda>us.
            bind (parse d (return_sequences f)) (\<lambda>rs.
            bind (infer d (map (gru_layer (stateful f)) (zip2 us rs)) s3) (\<lambda>s4.
            bind (infer d [Stream Flatten, Dropout (dropout1 f)] s4) (\<lambda>s5.
            bind (parse d (units1 f)) (\<lambda>us1.
            bind (parse d (act1 f)) (\<lambda>acts1.
            bind (infer d (map hidden_dense (zip2 us1 acts1)) s5) (\<lambda>s6.
            infer d [Dense (PInt (label_count f)) None] s6)))))))))"
      by (rule result_shape_stage) (simp add: 3 stage_flags fl)
    then show ?thesis
      by (simp only: conv_stack_shape fl bind_assoc)
  qed
  have "result_shape (model_locals d f)
      = bind (result_shape (front_end d f)) (\<lambda>s1.
        bind (parse d (cnn_filters f)) (\<lambda>fs.
        bind (parse d (cnn_kernel_size f)) (\<lambda>ks.
        bind (parse d (cnn_act f)) (\<lambda>acts.
        bind (parse d (cnn_dilation_rate f)) (\<lambda>dils.
        bind (parse d (cnn_strides f)) (\<lambda>strs.
        bind (infer d (map conv_layer (zip5 fs ks acts dils strs)) s1) (\<lambda>s2.
        bind (if length s2 < 4 then Inl IndexError
              else infer d [Reshape [- 1, s2 ! 2 * s2 ! 3]] s2) (\<lambda>s3.
        bind (parse d (gru_units f)) (\<lambda>us.
        bind (parse d (return_sequences f)) (\<lambda>rs.
        bind (infer d (map (gru_layer (stateful f)) (zip2 us rs)) s3) (\<lambda>s4.
        bind (infer d [Stream Flatten, Dropout (dropout1 f)] s4) (\<lambda>s5.
        bind (parse d (units1 f)) (\<lambda>us1.
        bind (parse d (act1 f)) (\<lambda>acts1.
        bind (infer d (map hidden_dense (zip2 us1 acts1)) s5) (\<lambda>s6.
        infer d [Dense (PInt (label_count f)) None] s6)))))))))))))))"
    unfolding model_locals_def
    by (rule result_shape_stage) (simp add: 2 stage_flags)
  then show ?thesis
    by (simp only: front_end_shape unhandled_outcome_def)
qed

lemma model_shape:
  "map_sum id (\<lambda>m. shape (outputs m)) (model d f) = result_shape (model_locals d f)"
  by (cases "model_locals d f") (simp_all add: model_def Model_def)

section \<open>The claims\<close>

text \<open>
  C1. Whenever the nine option strings parse and \<open>model\<close> returns a model, its layers
  are, in this order and with nothing else: the Input layer, SpeechFeatures, the
  expand-dims step, one streaming Conv2D per tuple of the five zipped sequences, one
  Reshape, one GRU per pair of the two zipped sequences, the streaming Flatten, one
  Dropout, one hidden Dense per pair of the two zipped sequences, and the final Dense
  with \<open>label_count\<close> units. The Reshape collapses the feature and channel axes: its
  target is \<open>(-1, s[2] * s[3])\<close>, where \<open>s\<close>, of at least four axes, is the shape that
  shape inference gives for the layers before it.
\<close>

theorem model_layer_sequence:
  assumes "model d f = Inr m"
    and "parse d (cnn_filters f) = Inr fs"
    and "parse d (cnn_kernel_size f) = Inr ks"
    and "parse d (cnn_act f) = Inr acts"
    and "parse d (cnn_dilation_rate f) = Inr dils"
    and "parse d (cnn_strides f) = Inr strs"
    and "parse d (gru_units f) = Inr us"
    and "parse d (return_sequences f) = Inr rs"
    and "parse d (units1 f) = Inr us1"
    and "parse d (act1 f) = Inr acts1"
  shows "\<exists>s. infer d
           ([SpeechFeatures (speech_features_of f), ExpandDims]
            @ map conv_layer (zip5 fs ks acts dils strs))
           [batch_size f, desired_samples f] = Inr s
       \<and> 4 \<le> length s
       \<and> layers m =
           [Input [desired_samples f] (batch_size f),
            SpeechFeatures (speech_features_of f), ExpandDims]
           @ map conv_layer (zip5 fs ks acts dils strs)
           @ [Reshape [- 1, s ! 2 * s ! 3]]
           @ map (gru_layer (stateful f)) (zip2 us rs)
           @ [Stream Flatten, Dropout (dropout1 f)]
           @ map hidden_dense (zip2 us1 acts1)
           @ [Dense (PInt (label_count f)) None]"
proof -
  from assms(1) obtain st where st: "model_locals d f = Inr st"
    and lay: "layers m = producers (net st)"
    by (rule model_Inr)
  from st obtain fs' ks' acts' dils' strs' us' rs' us1' acts1' s2 where
    p: "parse d (cnn_filters f) = Inr fs'"
       "parse d (cnn_kernel_size f) = Inr ks'"
       "parse d (cnn_act f) = Inr acts'"
       "parse d (cnn_dilation_rate f) = Inr dils'"
       "parse d (cnn_strides f) = Inr strs'"
       "parse d (gru_units f) = Inr us'"
       "parse d (return_sequences f) = Inr rs'"
       "parse d (units1 f) = Inr us1'"
       "parse d (act1 f) = Inr acts1'"
    and mid: "bind (front_end d f) (conv_stack d) = Inr s2"
    and len: "4 \<le> length (shape (net s2))"
    and e1: "extends d (input_tensor f) (net s2)
       ([SpeechFeatures (speech_features_of f), ExpandDims]
        @ map conv_layer (zip5 fs' ks' acts' dils' strs'))"
    and e2: "extends d (net s2) (net st)
       ([Reshape [- 1, shape (net s2) ! 2 * shape (net s2) ! 3]]
        @ map (gru_layer (stateful f)) (zip2 us' rs')
        @ [Stream Flatten, Dropout (dropout1 f)]
        @ map hidden_dense (zip2 us1' acts1')
        @ [Dense (PInt (label_count f)) None])"
    and fr: "flags_of st = f" "input_audio st = input_tensor f"
    by (rule model_locals_Inr)
  from p assms(2-) have eq: "fs' = fs" "ks' = ks" "acts' = acts" "dils' = dils"
    "strs' = strs" "us' = us" "rs' = rs" "us1' = us1" "acts1' = acts1"
    by simp_all
  from extends_infer [OF e1] have inf: "infer d
           ([SpeechFeatures (speech_features_of f), ExpandDims]
            @ map conv_layer (zip5 fs ks acts dils strs))
           [batch_size f, desired_samples f] = Inr (shape (net s2))"
    by (simp add: eq input_tensor_def)
  from extends_producers [OF e1] extends_producers [OF e2] lay
  have "layers m =
           [Input [desired_samples f] (batch_size f),
            SpeechFeatures (speech_features_of f), ExpandDims]
           @ map conv_layer (zip5 fs ks acts dils strs)
           @ [Reshape [- 1, shape (net s2) ! 2 * shape (net s2) ! 3]]
           @ map (gru_layer (stateful f)) (zip2 us rs)
           @ [Stream Flatten, Dropout (dropout1 f)]
           @ map hidden_dense (zip2 us1 acts1)
           @ [Dense (PInt (label_count f)) None]"
    by (simp add: eq input_producers)
  with inf len show ?thesis by blast
qed

theorem model_layer_sequence_witness:
  "layers (projr (model ref_deps wide_flags)) =
     [Input [16000] 100,
      SpeechFeatures (speech_features_of wide_flags),
      ExpandDims,
      Stream (Conv2D (PInt 64) (PTuple [PInt 3, PInt 3]) (PStr ''relu'')
                (PTuple [PInt 1, PInt 1]) (PTuple [PInt 1, PInt 1])),
      Stream (Conv2D (PInt 64) (PTuple [PInt 5, PInt 3]) (PStr ''selu'')
                (PTuple [PInt 1, PInt 1]) (PTuple [PInt 1, PInt 1])),
      Stream (Conv2D (PInt 64) (PTuple [PInt 5, PInt 3]) (PStr ''selu'')
                (PTuple [PInt 2, PInt 1]) (PTuple [PInt 1, PInt 1])),
      Stream (Conv2D (PInt 64) (PTuple [PInt 5, PInt 3]) (PStr ''selu'')
                (PTuple [PInt 1, PInt 1]) (PTuple [PInt 1, PInt 1])),
      Stream (Conv2D (PInt 64) (PTuple [PInt 5, PInt 2]) (PStr ''selu'')
                (PTuple [PInt 2, PInt 1]) (PTuple [PInt 1, PInt 1])),
      Stream (Conv2D (PInt 64) (PTuple [PInt 5, PInt 1]) (PStr ''selu'')
                (PTuple [PInt 1, PInt 1]) (PTuple [PInt 1, PInt 1])),
      Stream (Conv2D (PInt 256) (PTuple [PInt 5, PInt 1]) (PStr ''selu'')
                (PTuple [PInt 2, PInt 1]) (PTuple [PInt 1, PInt 1])),
      Reshape [- 1, 2816],
      GRU (PInt 512) (PInt 1) 0,
      Stream Flatten,
      Dropout (PFloat 1 (- 1)),
      Dense (PInt 12) None]"
proof -
  from wide_model_built
  have "model ref_deps wide_flags = Inr (projr (model ref_deps wide_flags))"
    by simp
  from model_layer_sequence [OF this parse_wide] wide_conv_shape
  show ?thesis
    by (auto simp: conv_layer_def gru_layer_def wide_flags_def default_flags_def)
qed

text \<open>
  C2. The spec's validity invariant is that the sequences handed to one \<open>zip\<close> have
  the same length; the code does not check it. In every case the number of streaming
  Conv2D layers built is the minimum of the lengths of the five parsed sequences, the
  number of GRU layers the minimum of the lengths of \<open>gru_units\<close> and
  \<open>return_sequences\<close>, and the number of hidden Dense layers the minimum of the
  lengths of \<open>units1\<close> and \<open>act1\<close>: entries beyond the shortest sequence build
  nothing, and with equal lengths every entry builds a layer.
\<close>

theorem zip_truncates_to_shortest:
  assumes "model d f = Inr m"
    and "parse d (cnn_filters f) = Inr fs"
    and "parse d (cnn_kernel_size f) = Inr ks"
    and "parse d (cnn_act f) = Inr acts"
    and "parse d (cnn_dilation_rate f) = Inr dils"
    and "parse d (cnn_strides f) = Inr strs"
    and "parse d (gru_units f) = Inr us"
    and "parse d (return_sequences f) = Inr rs"
    and "parse d (units1 f) = Inr us1"
    and "parse d (act1 f) = Inr acts1"
  shows "length (filter is_conv (layers m)) =
           min (length fs) (min (length ks) (min (length acts)
             (min (length dils) (length strs))))
       \<and> length (filter is_gru (layers m)) = min (length us) (length rs)
       \<and> length (filter is_hidden_dense (layers m)) = min (length us1) (length acts1)"
proof -
  from assms(1) obtain fs' ks' acts' dils' strs' us' rs' us1' acts1' n where
    p: "parse d (cnn_filters f) = Inr fs'"
       "parse d (cnn_kernel_size f) = Inr ks'"
       "parse d (cnn_act f) = Inr acts'"
       "parse d (cnn_dilation_rate f) = Inr dils'"
       "parse d (cnn_strides f) = Inr strs'"
       "parse d (gru_units f) = Inr us'"
       "parse d (return_sequences f) = Inr rs'"
       "parse d (units1 f) = Inr us1'"
       "parse d (act1 f) = Inr acts1'"
    and lay: "layers m =
       [Input [desired_samples f] (batch_size f),
        SpeechFeatures (speech_features_of f), ExpandDims]
       @ map conv_layer (zip5 fs' ks' acts' dils' strs')
       @ [Reshape [- 1, n]]
       @ map (gru_layer (stateful f)) (zip2 us' rs')
       @ [Stream Flatten, Dropout (dropout1 f)]
       @ map hidden_dense (zip2 us1' acts1')
       @ [Dense (PInt (label_count f)) None]"
    by (rule model_layers)
  from p assms(2-) have eq: "fs' = fs" "ks' = ks" "acts' = acts" "dils' = dils"
    "strs' = strs" "us' = us" "rs' = rs" "us1' = us1" "acts1' = acts1"
    by simp_all
  have "length (filter is_conv (layers m)) = length (zip5 fs ks acts dils strs)"
    by (simp add: lay eq)
  moreover have "length (filter is_gru (layers m)) = length (zip2 us rs)"
    by (simp add: lay eq)
  moreover have "length (filter is_hidden_dense (layers m)) = length (zip2 us1 acts1)"
    by (simp add: lay eq)
  ultimately show ?thesis
    by (simp add: length_zip2 length_zip5)
qed

theorem zip_truncates_to_shortest_witness:
  "length (filter is_conv (layers (projr (model ref_deps uneven_flags)))) = 2
   \<and> length (filter is_gru (layers (projr (model ref_deps uneven_flags)))) = 1
   \<and> length (filter is_hidden_dense (layers (projr (model ref_deps uneven_flags)))) = 1"
proof -
  from uneven_model_built
  have "model ref_deps uneven_flags = Inr (projr (model ref_deps uneven_flags))"
    by simp
  from zip_truncates_to_shortest [OF this parse_uneven] show ?thesis
    by simp
qed

text \<open>
  C5. Whenever \<open>model\<close> returns, the last layer of the chain that produces the output
  tensor is the Dense layer built with \<open>units = flags.label_count\<close> and no
  \<open>activation\<close> argument: nothing is applied after it.
\<close>

theorem final_layer_is_logits:
  assumes "model d f = Inr m"
  shows "last (layers m) = Dense (PInt (label_count f)) None"
proof -
  from assms obtain fs ks acts dils strs us rs us1 acts1 n where
    "layers m =
       [Input [desired_samples f] (batch_size f),
        SpeechFeatures (speech_features_of f), ExpandDims]
       @ map conv_layer (zip5 fs ks acts dils strs)
       @ [Reshape [- 1, n]]
       @ map (gru_layer (stateful f)) (zip2 us rs)
       @ [Stream Flatten, Dropout (dropout1 f)]
       @ map hidden_dense (zip2 us1 acts1)
       @ [Dense (PInt (label_count f)) None]"
    by (rule model_layers)
  then show ?thesis by simp
qed

theorem final_layer_is_logits_witness:
  "model ref_deps default_flags = Inr default_model
   \<and> last (layers default_model) = Dense (PInt 12) None"
  using final_layer_is_logits [OF default_model_built] default_model_built
  by (simp add: default_flags_def)

text \<open>
  C8. When \<open>units1\<close> and \<open>act1\<close> parse to empty sequences, a returned model has no
  hidden Dense layer: its only Dense layer is the final one, and that layer comes
  right after the Dropout layer.
\<close>

theorem hidden_dense_stack_optional:
  assumes "model d f = Inr m"
    and "parse d (units1 f) = Inr []"
    and "parse d (act1 f) = Inr []"
  shows "filter is_hidden_dense (layers m) = []
       \<and> filter is_dense (layers m) = [Dense (PInt (label_count f)) None]
       \<and> (\<exists>pre. layers m = pre @ [Dropout (dropout1 f), Dense (PInt (label_count f)) None])"
proof -
  from assms(1) obtain fs ks acts dils strs us rs us1 acts1 n where
    p: "parse d (units1 f) = Inr us1" "parse d (act1 f) = Inr acts1"
    and lay: "layers m =
       [Input [desired_samples f] (batch_size f),
        SpeechFeatures (speech_features_of f), ExpandDims]
       @ map conv_layer (zip5 fs ks acts dils strs)
       @ [Reshape [- 1, n]]
       @ map (gru_layer (stateful f)) (zip2 us rs)
       @ [Stream Flatten, Dropout (dropout1 f)]
       @ map hidden_dense (zip2 us1 acts1)
       @ [Dense (PInt (label_count f)) None]"
    by (rule model_layers)
  from p assms(2,3) have "us1 = []" "acts1 = []"
    by simp_all
  with lay have lay': "layers m =
       ([Input [desired_samples f] (batch_size f),
         SpeechFeatures (speech_features_of f), ExpandDims]
        @ map conv_layer (zip5 fs ks acts dils strs)
        @ [Reshape [- 1, n]]
        @ map (gru_layer (stateful f)) (zip2 us rs)
        @ [Stream Flatten])
       @ [Dropout (dropout1 f), Dense (PInt (label_count f)) None]"
    by simp
  have "filter is_hidden_dense (layers m) = []"
    by (simp add: lay')
  moreover have "filter is_dense (layers m) = [Dense (PInt (label_count f)) None]"
    by (simp add: lay')
  moreover from lay'
  have "\<exists>pre. layers m = pre @ [Dropout (dropout1 f), Dense (PInt (label_count f)) None]"
    by blast
  ultimately show ?thesis by blast
qed

theorem hidden_dense_stack_optional_witness:
  "parse ref_deps (units1 default_flags) = Inr []
   \<and> parse ref_deps (act1 default_flags) = Inr []
   \<and> filter is_dense (layers default_model) = [Dense (PInt 12) None]"
  using hidden_dense_stack_optional [OF default_model_built parse_defaults(8,9)]
    parse_defaults(8,9)
  by (simp add: default_flags_def)

text \<open>
  C9. The GRU layers of a returned model are exactly the ones built from the pairs of
  the zipped \<open>gru_units\<close> and \<open>return_sequences\<close>, each with
  \<open>stateful = flags.stateful\<close>: units and return-sequences vary with the pair, the
  one stateful value read from the flags is shared by all of them.
\<close>

theorem gru_layers_share_stateful:
  assumes "model d f = Inr m"
    and "parse d (gru_units f) = Inr us"
    and "parse d (return_sequences f) = Inr rs"
  shows "filter is_gru (layers m) = map (gru_layer (stateful f)) (zip2 us rs)
       \<and> (\<forall>l \<in> set (layers m). is_gru l \<longrightarrow> gru_stateful l = Some (stateful f))"
proof -
  from assms(1) obtain fs ks acts dils strs us' rs' us1 acts1 n where
    p: "parse d (gru_units f) = Inr us'" "parse d (return_sequences f) = Inr rs'"
    and lay: "layers m =
       [Input [desired_samples f] (batch_size f),
        SpeechFeatures (speech_features_of f), ExpandDims]
       @ map conv_layer (zip5 fs ks acts dils strs)
       @ [Reshape [- 1, n]]
       @ map (gru_layer (stateful f)) (zip2 us' rs')
       @ [Stream Flatten, Dropout (dropout1 f)]
       @ map hidden_dense (zip2 us1 acts1)
       @ [Dense (PInt (label_count f)) None]"
    by (rule model_layers)
  from p assms(2,3) have eq: "us' = us" "rs' = rs"
    by simp_all
  have fil: "filter is_gru (layers m) = map (gru_layer (stateful f)) (zip2 us rs)"
    by (simp add: lay eq)
  have "\<forall>l \<in> set (layers m). is_gru l \<longrightarrow> gru_stateful l = Some (stateful f)"
  proof (intro ballI impI)
    fix l
    assume "l \<in> set (layers m)" and "is_gru l"
    then have "l \<in> set (filter is_gru (layers m))"
      by simp
    with fil have "l \<in> set (map (gru_layer (stateful f)) (zip2 us rs))"
      by simp
    then show "gru_stateful l = Some (stateful f)"
      by (auto simp: gru_layer_stateful)
  qed
  with fil show ?thesis by blast
qed

theorem gru_layers_share_stateful_witness:
  "stateful two_gru_flags = 1
   \<and> filter is_gru (layers (projr (model ref_deps two_gru_flags)))
       = [GRU (PInt 512) (PInt 1) 1, GRU (PInt 256) (PInt 0) 1]"
proof -
  from two_gru_model_built
  have "model ref_deps two_gru_flags = Inr (projr (model ref_deps two_gru_flags))"
    by simp
  from gru_layers_share_stateful [OF this parse_two_gru]
  show ?thesis
    by (simp add: gru_layer_def two_gru_flags_def)
qed

text \<open>
  C10. \<open>model\<close> only reads its argument: whenever it returns, the flags in the frame
  at the \<open>return\<close> statement are the flags it was called with, field for field.
\<close>

theorem model_keeps_flags:
  assumes "model d f = Inr m"
  shows "\<exists>st. model_locals d f = Inr st \<and> m = Model (input_audio st) (net st)
              \<and> flags_of st = f"
proof -
  from assms obtain st where st: "model_locals d f = Inr st"
    and m: "m = Model (input_audio st) (net st)"
    by (rule model_Inr)
  from st have "flags_of st = f"
    by (rule model_locals_Inr)
  with st m show ?thesis by blast
qed

theorem model_keeps_flags_witness:
  "model ref_deps default_flags = Inr default_model
   \<and> flags_of (projr (model_locals ref_deps default_flags)) = default_flags"
proof -
  from model_keeps_flags [OF default_model_built] obtain st where
    "model_locals ref_deps default_flags = Inr st" "flags_of st = default_flags"
    by blast
  with default_model_built show ?thesis by simp
qed


text \<open>
  C4. \<open>model\<close> has no handler: its outcome is the outcome of calling the
  collaborators in the order of the source with nothing caught. It raises exactly
  when one of them raises, the exception is the first one raised, unchanged, and
  otherwise the model returned has the shape the last layer gave. In particular, if
  \<open>parse\<close> raises on any of the nine option strings, no model is returned; every
  exception that leaves \<open>model\<close> is one that \<open>parse\<close> raised on an option string
  or that a layer raised, or the \<open>IndexError\<close> of \<open>shape[2] * shape[3]\<close>; and the
  chain of a returned model replays through shape inference from the input shape.
\<close>

theorem exceptions_reach_caller:
  "map_sum id (\<lambda>m. shape (outputs m)) (model d f) = unhandled_outcome d f
   \<and> ((\<exists>s \<in> set (option_strings f). isl (parse d s)) \<longrightarrow> isl (model d f))
   \<and> (\<forall>e. model d f = Inl e \<longrightarrow>
          e = IndexError
          \<or> (\<exists>s \<in> set (option_strings f). parse d s = Inl e)
          \<or> (\<exists>l s. out_shape d l s = Inl e))
   \<and> (\<forall>m. model d f = Inr m \<longrightarrow>
          infer d (tl (layers m)) [batch_size f, desired_samples f] = Inr (shape (outputs m)))"
proof (intro conjI impI allI)
  show "map_sum id (\<lambda>m. shape (outputs m)) (model d f) = unhandled_outcome d f"
    by (simp only: model_shape model_locals_shape)
next
  assume bad: "\<exists>s \<in> set (option_strings f). isl (parse d s)"
  show "isl (model d f)"
  proof (rule ccontr)
    assume "\<not> isl (model d f)"
    then obtain m where m: "model d f = Inr m"
      by (cases "model d f") auto
    from m obtain fs ks acts dils strs us rs us1 acts1 where
      "parse d (cnn_filters f) = Inr fs"
      "parse d (cnn_kernel_size f) = Inr ks"
      "parse d (cnn_act f) = Inr acts"
      "parse d (cnn_dilation_rate f) = Inr dils"
      "parse d (cnn_strides f) = Inr strs"
      "parse d (gru_units f) = Inr us"
      "parse d (return_sequences f) = Inr rs"
      "parse d (units1 f) = Inr us1"
      "parse d (act1 f) = Inr acts1"
      by (rule model_layers)
    then have "\<forall>s \<in> set (option_strings f). \<not> isl (parse d s)"
      by (simp add: option_strings_def)
    with bad show False by blast
  qed
next
  fix e
  assume "model d f = Inl e"
  then have "model_locals d f = Inl e"
    by (rule model_Inl)
  then show "e = IndexError
          \<or> (\<exists>s \<in> set (option_strings f). parse d s = Inl e)
          \<or> (\<exists>l s. out_shape d l s = Inl e)"
    by (rule model_locals_Inl)
next
  fix m
  assume "model d f = Inr m"
  then show "infer d (tl (layers m)) [batch_size f, desired_samples f] = Inr (shape (outputs m))"
    by (rule model_infer)
qed

theorem exceptions_reach_caller_witness:
  "(\<exists>s \<in> set (option_strings malformed_flags). isl (parse ref_deps s))
   \<and> parse ref_deps (cnn_kernel_size malformed_flags) = Inl (ParseError [])
   \<and> model ref_deps malformed_flags = Inl (ParseError [])
   \<and> model ref_deps no_labels_flags = Inl (LayerError ''Dense'')
   \<and> model ref_deps tall_kernel_flags = Inl (LayerError ''Conv2D'')
   \<and> model ref_deps default_flags = Inr default_model
   \<and> infer ref_deps (tl (layers default_model)) [100, 16000] = Inr [100, 12]"
proof -
  have bad: "\<exists>s \<in> set (option_strings malformed_flags). isl (parse ref_deps s)"
    using malformed_parse by (auto simp: option_strings_def)
  from exceptions_reach_caller [of ref_deps malformed_flags] bad
  have "isl (model ref_deps malformed_flags)"
    by blast
  from exceptions_reach_caller [of ref_deps malformed_flags] malformed_model
  have "ParseError [] = IndexError
        \<or> (\<exists>s \<in> set (option_strings malformed_flags). parse ref_deps s = Inl (ParseError []))
        \<or> (\<exists>l s. out_shape ref_deps l s = Inl (ParseError []))"
    by blast
  from exceptions_reach_caller [of ref_deps no_labels_flags] no_labels_outcome
  have "map_sum id (\<lambda>m. shape (outputs m)) (model ref_deps no_labels_flags)
          = Inl (LayerError ''Dense'')"
    by simp
  then have 1: "model ref_deps no_labels_flags = Inl (LayerError ''Dense'')"
    by (cases "model ref_deps no_labels_flags") simp_all
  from exceptions_reach_caller [of ref_deps tall_kernel_flags] tall_kernel_outcome
  have "map_sum id (\<lambda>m. shape (outputs m)) (model ref_deps tall_kernel_flags)
          = Inl (LayerError ''Conv2D'')"
    by simp
  then have 2: "model ref_deps tall_kernel_flags = Inl (LayerError ''Conv2D'')"
    by (cases "model ref_deps tall_kernel_flags") simp_all
  from exceptions_reach_caller [of ref_deps default_flags] default_model_built
  have "infer ref_deps (tl (layers default_model))
          [batch_size default_flags, desired_samples default_flags]
        = Inr (shape (outputs default_model))"
    by blast
  then have 3: "infer ref_deps (tl (layers default_model)) [100, 16000] = Inr [100, 12]"
    by (simp add: default_flags_def default_model_def)
  from bad 1 2 3 malformed_model malformed_parse default_model_built show ?thesis
    by blast
qed

text \<open>
  C3. Let the layers keep the batch axis first, Flatten give a tensor of two axes,
  Dropout keep the shape, and Dense keep the number of axes and put its \<open>units\<close> last.
  Then every model that \<open>model\<close> returns has output shape
  \<open>[batch_size, label_count]\<close>, whatever the hyperparameters; in particular with
  the registered defaults, for which the reference collaborators build a model.
\<close>

theorem output_shape_batch_by_labels:
  assumes "model d f = Inr m"
    and batch: "\<And>l b s s'. out_shape d l (b # s) = Inr s' \<Longrightarrow> \<exists>r. s' = b # r"
    and flat: "\<And>s s'. out_shape d (Stream Flatten) s = Inr s' \<Longrightarrow> length s' = 2"
    and drop: "\<And>r s s'. out_shape d (Dropout r) s = Inr s' \<Longrightarrow> s' = s"
    and dense: "\<And>u a s s'. out_shape d (Dense u a) s = Inr s' \<Longrightarrow> length s' = length s"
    and units: "\<And>n a s s'. out_shape d (Dense (PInt n) a) s = Inr s' \<Longrightarrow> last s' = n"
  shows "shape (outputs m) = [batch_size f, label_count f]"
proof -
  from assms(1) obtain st where st: "model_locals d f = Inr st"
    and sh: "shape (outputs m) = shape (net st)"
    by (rule model_Inr)
  from st obtain fs ks acts dils strs us rs us1 acts1 s2 where
    p: "parse d (cnn_filters f) = Inr fs"
       "parse d (cnn_kernel_size f) = Inr ks"
       "parse d (cnn_act f) = Inr acts"
       "parse d (cnn_dilation_rate f) = Inr dils"
       "parse d (cnn_strides f) = Inr strs"
       "parse d (gru_units f) = Inr us"
       "parse d (return_sequences f) = Inr rs"
       "parse d (units1 f) = Inr us1"
       "parse d (act1 f) = Inr acts1"
    and mid: "bind (front_end d f) (conv_stack d) = Inr s2"
    and len: "4 \<le> length (shape (net s2))"
    and e1: "extends d (input_tensor f) (net s2)
       ([SpeechFeatures (speech_features_of f), ExpandDims]
        @ map conv_layer (zip5 fs ks acts dils strs))"
    and e2: "extends d (net s2) (net st)
       ([Reshape [- 1, shape (net s2) ! 2 * shape (net s2) ! 3]]
        @ map (gru_layer (stateful f)) (zip2 us rs)
        @ [Stream Flatten, Dropout (dropout1 f)]
        @ map hidden_dense (zip2 us1 acts1)
        @ [Dense (PInt (label_count f)) None])"
    and fr: "flags_of st = f" "input_audio st = input_tensor f"
    by (rule model_locals_Inr)
  let ?b = "batch_size f"
  have kb: "\<exists>r. s' = b # r" if "infer d ls (b # s) = Inr s'" for ls b s s'
    using batch that by (rule infer_keeps_batch)
  have hr: "length s' = length s" if "infer d (map hidden_dense hs) s = Inr s'" for hs s s'
    using dense that by (rule infer_hidden_rank)
  note all = extends_infer [OF extends_trans [OF e1 e2]]
  then have "infer d
       (([SpeechFeatures (speech_features_of f), ExpandDims]
        @ map conv_layer (zip5 fs ks acts dils strs)
        @ [Reshape [- 1, shape (net s2) ! 2 * shape (net s2) ! 3]]
        @ map (gru_layer (stateful f)) (zip2 us rs))
        @ ([Stream Flatten, Dropout (dropout1 f)]
        @ (map hidden_dense (zip2 us1 acts1)
        @ [Dense (PInt (label_count f)) None])))
       [?b, desired_samples f] = Inr (shape (net st))"
    by (simp add: input_tensor_def)
  then obtain x y z where
    x: "infer d
       ([SpeechFeatures (speech_features_of f), ExpandDims]
        @ map conv_layer (zip5 fs ks acts dils strs)
        @ [Reshape [- 1, shape (net s2) ! 2 * shape (net s2) ! 3]]
        @ map (gru_layer (stateful f)) (zip2 us rs)) [?b, desired_samples f] = Inr x"
    and y: "infer d [Stream Flatten, Dropout (dropout1 f)] x = Inr y"
    and z: "infer d (map hidden_dense (zip2 us1 acts1)) y = Inr z"
    and fin: "infer d [Dense (PInt (label_count f)) None] z = Inr (shape (net st))"
    unfolding infer_append bind_eq_Inr by blast
  from kb [OF x] obtain r where xr: "x = ?b # r"
    by blast
  from y obtain y1 where y1: "out_shape d (Stream Flatten) x = Inr y1"
    and y2: "out_shape d (Dropout (dropout1 f)) y1 = Inr y"
    by (auto simp: bind_eq_Inr)
  from drop [OF y2] flat [OF y1] have "length y = 2"
    by simp
  moreover from kb [of "[Stream Flatten, Dropout (dropout1 f)]" ?b r y] y xr
  obtain r1 where "y = ?b # r1"
    by blast
  ultimately obtain k where yk: "y = [?b, k]"
    by (cases r1) auto
  from hr [OF z] yk have "length z = 2"
    by simp
  moreover from kb [of "map hidden_dense (zip2 us1 acts1)" ?b "[k]" z] z yk
  obtain r2 where "z = ?b # r2"
    by blast
  ultimately obtain k' where zk: "z = [?b, k']"
    by (cases r2) auto
  from fin have o: "out_shape d (Dense (PInt (label_count f)) None) z = Inr (shape (net st))"
    by (simp add: bind_eq_Inr)
  from dense [OF o] zk have "length (shape (net st)) = 2"
    by simp
  moreover from batch [of "Dense (PInt (label_count f)) None" ?b "[k']"] o zk
  obtain r3 where "shape (net st) = ?b # r3"
    by blast
  moreover note units [OF o]
  ultimately have "shape (net st) = [?b, label_count f]"
    by (cases r3) auto
  with sh show ?thesis by simp
qed

theorem output_shape_batch_by_labels_witness:
  "model ref_deps default_flags = Inr default_model
   \<and> shape (outputs default_model) = [100, 12]"
proof -
  from output_shape_batch_by_labels [OF default_model_built keras_keeps_batch
    keras_flatten_rank keras_dropout_same keras_dense_rank keras_dense_units]
  have "shape (outputs default_model) = [batch_size default_flags, label_count default_flags]" .
  with default_model_built show ?thesis
    by (simp add: default_flags_def)
qed

text \<open>
  C6. Let \<open>st\<close> be the frame after the convolution loop, so that the shape of its
  \<open>net\<close> is the output shape of the last convolution (of the expand-dims step when
  there is none). The next layer of every returned model is a Reshape whose target is
  \<open>(-1, shape[2] * shape[3])\<close> of that shape. If Reshape keeps the batch axis and
  the number of elements and rejects a zero target axis, a tensor of shape
  \<open>[batch, time, feature, channels]\<close> comes out with shape
  \<open>[batch, time, feature * channels]\<close>.
\<close>

theorem reshape_collapses_feature_and_channel:
  assumes "model d f = Inr m"
    and reshape: "\<And>n b rest s'. out_shape d (Reshape [- 1, n]) (b # rest) = Inr s'
                   \<Longrightarrow> \<exists>k. s' = [b, k, n] \<and> k * n = prod_list rest \<and> n \<noteq> 0"
  shows "\<exists>st st' cs rest.
      bind (front_end d f) (conv_stack d) = Inr st
    \<and> collapse d st = Inr st'
    \<and> producers (net st) =
        [Input [desired_samples f] (batch_size f),
         SpeechFeatures (speech_features_of f), ExpandDims] @ map conv_layer cs
    \<and> 4 \<le> length (shape (net st))
    \<and> producers (net st') =
        producers (net st) @ [Reshape [- 1, shape (net st) ! 2 * shape (net st) ! 3]]
    \<and> layers m = producers (net st') @ rest
    \<and> (\<forall>b t fe c. shape (net st) = [b, t, fe, c]
          \<longrightarrow> shape (net st') = [b, t, fe * c])"
proof -
  from assms(1) obtain fin where fin: "model_locals d f = Inr fin"
    and lay: "layers m = producers (net fin)"
    by (rule model_Inr)
  from fin obtain st st' cs rest where
    mid: "bind (front_end d f) (conv_stack d) = Inr st"
    and col: "collapse d st = Inr st'"
    and pre: "producers (net st) =
       [Input [desired_samples f] (batch_size f),
        SpeechFeatures (speech_features_of f), ExpandDims] @ map conv_layer cs"
    and post: "producers (net fin) = producers (net st') @ rest"
    by (rule model_locals_collapse)
  from collapse_Inr [OF col] have len: "4 \<le> length (shape (net st))"
    and ext: "extends d (net st) (net st')
        [Reshape [- 1, shape (net st) ! 2 * shape (net st) ! 3]]"
    by simp_all
  from ext have prod: "producers (net st') =
        producers (net st) @ [Reshape [- 1, shape (net st) ! 2 * shape (net st) ! 3]]"
    and out: "out_shape d (Reshape [- 1, shape (net st) ! 2 * shape (net st) ! 3])
                (shape (net st)) = Inr (shape (net st'))"
    by (auto simp: extends_def bind_eq_Inr)
  have shp: "\<forall>b t fe c. shape (net st) = [b, t, fe, c]
          \<longrightarrow> shape (net st') = [b, t, fe * c]"
  proof (intro allI impI)
    fix b t fe c
    assume sh: "shape (net st) = [b, t, fe, c]"
    from out sh have "out_shape d (Reshape [- 1, fe * c]) (b # [t, fe, c]) = Inr (shape (net st'))"
      by simp
    from reshape [OF this] obtain k where
      k: "shape (net st') = [b, k, fe * c]" and el: "k * (fe * c) = prod_list [t, fe, c]"
      and nz: "fe * c \<noteq> 0"
      by blast
    from el have "k * (fe * c) = t * (fe * c)"
      by simp
    with nz have "k = t"
      by simp
    with k show "shape (net st') = [b, t, fe * c]" by simp
  qed
  from lay post have "layers m = producers (net st') @ rest"
    by simp
  with mid col pre len prod shp show ?thesis
    by blast
qed

theorem reshape_collapses_feature_and_channel_witness:
  "model ref_deps default_flags = Inr default_model
   \<and> (\<exists>st st'. bind (front_end ref_deps default_flags) (conv_stack ref_deps) = Inr st
         \<and> collapse ref_deps st = Inr st'
         \<and> shape (net st) = [100, 11, 11, 128]
         \<and> shape (net st') = [100, 11, 1408])"
proof -
  from reshape_collapses_feature_and_channel [OF default_model_built keras_reshape_rule]
  obtain st st' where
    mid: "bind (front_end ref_deps default_flags) (conv_stack ref_deps) = Inr st"
    and col: "collapse ref_deps st = Inr st'"
    and shp: "\<forall>b t fe c. shape (net st) = [b, t, fe, c]
          \<longrightarrow> shape (net st') = [b, t, fe * c]"
    by blast
  from default_after_conv mid have sh: "shape (net st) = [100, 11, 11, 128]"
    by simp
  with shp have "shape (net st') = [100, 11, 11 * 128]"
    by simp
  then have "shape (net st') = [100, 11, 1408]"
    by simp
  with mid col sh default_model_built show ?thesis
    by blast
qed

end
